theory Spec2Isabelle
  imports Complex_Main
begin

section \<open>JavaScript string primitives used by the amount converter\<close>

text \<open>
  Strings are lists of 8-bit characters.  The white-space class is the one of
  \<^verbatim>\<open>String.prototype.trim\<close> and of the regular-expression class \<^verbatim>\<open>\s\<close>,
  restricted to the code units below 256: TAB, LF, VT, FF, CR, SPACE and NBSP.
  The class \<^verbatim>\<open>\d\<close> is the ten ASCII digits.
\<close>

definition isWhiteSpace :: "char \<Rightarrow> bool" where
  "isWhiteSpace c \<longleftrightarrow> (of_char c :: nat) \<in> {9, 10, 11, 12, 13, 32, 160}"

definition isDigit :: "char \<Rightarrow> bool" where
  "isDigit c \<longleftrightarrow> (48 :: nat) \<le> of_char c \<and> (of_char c :: nat) \<le> 57"

definition digitValue :: "char \<Rightarrow> nat" where
  "digitValue c = of_char c - 48"

definition digitChar :: "nat \<Rightarrow> char" where
  "digitChar n = char_of (48 + n)"

definition isZeroChar :: "char \<Rightarrow> bool" where
  "isZeroChar c \<longleftrightarrow> c = CHR ''0''"

text \<open>\<^verbatim>\<open>s.trim()\<close>\<close>

definition trim :: "string \<Rightarrow> string" where
  "trim s = rev (dropWhile isWhiteSpace (rev (dropWhile isWhiteSpace s)))"

text \<open>\<^verbatim>\<open>s.startsWith("-")\<close>\<close>

definition startsWithMinus :: "string \<Rightarrow> bool" where
  "startsWithMinus s = (case s of [] \<Rightarrow> False | c # _ \<Rightarrow> c = CHR ''-'')"

text \<open>
  \<^verbatim>\<open>s.split(sep)\<close> for a one-character separator: the result always has at least
  one segment, and \<^verbatim>\<open>"".split(".")\<close> is \<^verbatim>\<open>[""]\<close>.
\<close>

fun split :: "char \<Rightarrow> string \<Rightarrow> string list" where
  "split sep [] = [[]]"
| "split sep (c # cs) =
     (if c = sep then [] # split sep cs
      else (case split sep cs of [] \<Rightarrow> [[c]] | x # xs \<Rightarrow> (c # x) # xs))"

text \<open>
  The array destructuring \<^verbatim>\<open>const [whole = "0", fraction = ""] = parts\<close>: a default
  applies only where the array has no element at that index.
\<close>

definition destructWhole :: "string list \<Rightarrow> string" where
  "destructWhole parts = (case parts of [] \<Rightarrow> ''0'' | w # _ \<Rightarrow> w)"

definition destructFraction :: "string list \<Rightarrow> string" where
  "destructFraction parts = (case parts of _ # f # _ \<Rightarrow> f | _ \<Rightarrow> [])"

text \<open>
  \<^verbatim>\<open>s.replace(/^0+(?=\d)/, "")\<close>: the longest run of leading zeros that is followed by
  a digit is removed.  The run gives zeros back while the look-ahead fails, and a zero
  is a digit itself, so zeros are removed one by one as long as a digit follows.
\<close>

fun stripZerosBeforeDigit :: "string \<Rightarrow> string" where
  "stripZerosBeforeDigit (a # b # cs) =
     (if a = CHR ''0'' \<and> isDigit b then stripZerosBeforeDigit (b # cs) else a # b # cs)"
| "stripZerosBeforeDigit s = s"

text \<open>\<^verbatim>\<open>s.replace(/^0+/, "")\<close> and \<^verbatim>\<open>s.replace(/0+$/, "")\<close>\<close>

definition stripLeadingZeros :: "string \<Rightarrow> string" where
  "stripLeadingZeros s = dropWhile isZeroChar s"

definition stripTrailingZeros :: "string \<Rightarrow> string" where
  "stripTrailingZeros s = rev (dropWhile isZeroChar (rev s))"

text \<open>\<^verbatim>\<open>s || "0"\<close>: the empty string is the only falsy string.\<close>

definition orZero :: "string \<Rightarrow> string" where
  "orZero s = (if s = [] then ''0'' else s)"

text \<open>\<^verbatim>\<open>s.substring(0, n)\<close>, \<^verbatim>\<open>s.padEnd(n, "0")\<close>, \<^verbatim>\<open>s.padStart(n, "0")\<close>\<close>

definition substring0 :: "string \<Rightarrow> nat \<Rightarrow> string" where
  "substring0 s n = take n s"

definition padEnd :: "string \<Rightarrow> nat \<Rightarrow> string" where
  "padEnd s n = s @ replicate (n - length s) (CHR ''0'')"

definition padStart :: "string \<Rightarrow> nat \<Rightarrow> string" where
  "padStart s n = replicate (n - length s) (CHR ''0'') @ s"

text \<open>
  \<^verbatim>\<open>s.slice(0, -k)\<close> and \<^verbatim>\<open>s.slice(-k)\<close> for \<open>k > 0\<close>: a negative index counts from
  the end and is clamped at the start of the string.
\<close>

definition sliceUntilLast :: "string \<Rightarrow> nat \<Rightarrow> string" where
  "sliceUntilLast s k = take (length s - k) s"

definition sliceLast :: "string \<Rightarrow> nat \<Rightarrow> string" where
  "sliceLast s k = drop (length s - k) s"

section \<open>Errors\<close>

datatype error =
    InvalidAddress
  | PoolNotFound
  | WrongProgramOwner
  | MalformedAccount
  | TokenNotInPool
  | NonPositiveAmount
  | PoolDataUnavailable
  | InsufficientLiquidity
  | WalletNotConnected
  | WalletCannotSend
  | WalletCannotSign
  | AccountCreationFailed
  | TransactionSendFailed
  | ConfirmationTimeout
  | TransportError
  | BNInvalidCharacter

section \<open>The arbitrary-precision integer (bn.js), base 10\<close>

text \<open>
  A \<^verbatim>\<open>BN\<close> object is a number, or the object the constructor leaves when it parses no
  digit: \<^verbatim>\<open>words = null\<close> and \<^verbatim>\<open>length = 0\<close>, with the sign flag as it was set
  (\<open>BNEmpty negative\<close>).  After parsing, the library clears the sign of a zero
  magnitude, so a parsed number is an integer.
\<close>

datatype bn = BN int | BNEmpty bool

text \<open>
  \<^verbatim>\<open>isZero()\<close> is \<^verbatim>\<open>this.length === 1 && this.words[0] === 0\<close> and \<^verbatim>\<open>isNeg()\<close> is
  \<^verbatim>\<open>this.negative !== 0\<close>.
\<close>

fun BN_isZero :: "bn \<Rightarrow> bool" where
  "BN_isZero (BN n) = (n = 0)"
| "BN_isZero (BNEmpty negative) = False"

fun BN_isNeg :: "bn \<Rightarrow> bool" where
  "BN_isNeg (BN n) = (n < 0)"
| "BN_isNeg (BNEmpty negative) = negative"

text \<open>
  \<^verbatim>\<open>new BN(str)\<close>: the constructor passes \<^verbatim>\<open>number || 0\<close> on, so the empty string is
  the number zero.  Otherwise all white space is removed, one leading minus sign sets
  the sign flag, and the digits that remain, if any, are read most significant first;
  a character that is no decimal digit fails the library's assertion.  When nothing
  remains after the white space and the sign, nothing is parsed.
  \<^verbatim>\<open>bn.toString()\<close> prints the decimal digits of a number without leading zeros, after
  a minus sign for a negative number.
\<close>

fun parseBase :: "nat \<Rightarrow> string \<Rightarrow> error + nat" where
  "parseBase r [] = Inr r"
| "parseBase r (c # cs) =
     (if isDigit c then parseBase (r * 10 + digitValue c) cs else Inl BNInvalidCharacter)"

definition BN_of_string :: "string \<Rightarrow> error + bn" where
  "BN_of_string s =
     (if s = [] then Inr (BN 0)
      else
        case filter (\<lambda>c. \<not> isWhiteSpace c) s of
          [] \<Rightarrow> Inr (BNEmpty False)
        | c # cs \<Rightarrow>
            if c = CHR ''-''
            then (if cs = [] then Inr (BNEmpty True)
                  else case parseBase 0 cs of Inl e \<Rightarrow> Inl e | Inr n \<Rightarrow> Inr (BN (- int n)))
            else (case parseBase 0 (c # cs) of Inl e \<Rightarrow> Inl e | Inr n \<Rightarrow> Inr (BN (int n))))"

fun natToString :: "nat \<Rightarrow> string" where
  "natToString n =
     (if n < 10 then [digitChar n] else natToString (n div 10) @ [digitChar (n mod 10)])"

declare natToString.simps [simp del]

definition BN_toString :: "int \<Rightarrow> string" where
  "BN_toString n = (if n < 0 then CHR ''-'' # natToString (nat (- n)) else natToString (nat n))"

section \<open>AmountConverter\<close>

text \<open>\<^verbatim>\<open>uiAmountToBN(input, decimals)\<close>\<close>

definition uiAmountToBN :: "string \<Rightarrow> nat \<Rightarrow> error + bn" where
  "uiAmountToBN input decimals =
     (let sanitized = trim input in
      if sanitized = [] then Inr (BN 0)
      else if startsWithMinus sanitized then Inr (BN 0)
      else
        let parts = split (CHR ''.'') sanitized;
            whole = destructWhole parts;
            fraction = destructFraction parts;
            wholeDigits = orZero (stripZerosBeforeDigit whole);
            fractionDigits = padEnd (substring0 fraction decimals) decimals;
            combined = orZero (stripLeadingZeros (wholeDigits @ fractionDigits))
        in BN_of_string combined)"

text \<open>\<^verbatim>\<open>formatTokenAmount(amount, decimals)\<close>\<close>

definition formatTokenAmount :: "int \<Rightarrow> nat \<Rightarrow> string" where
  "formatTokenAmount amount decimals =
     (if decimals = 0 then BN_toString amount
      else
        let raw = padStart (BN_toString amount) (decimals + 1);
            whole = orZero (sliceUntilLast raw decimals);
            fraction = stripTrailingZeros (sliceLast raw decimals)
        in if fraction \<noteq> [] then whole @ ''.'' @ fraction else whole)"

text \<open>
  The guard of \<^verbatim>\<open>performClmmSwap\<close> on the converted amount:
  \<^verbatim>\<open>amountIn.isZero() || amountIn.isNeg()\<close>.
\<close>

definition amountRejected :: "bn \<Rightarrow> bool" where
  "amountRejected amountIn \<longleftrightarrow> BN_isZero amountIn \<or> BN_isNeg amountIn"

section \<open>Specification vocabulary for decimal strings\<close>

text \<open>The number a string of decimal digits denotes, most significant digit first.\<close>

definition digitsVal :: "string \<Rightarrow> nat" where
  "digitsVal s = foldl (\<lambda>r c. r * 10 + digitValue c) 0 s"

definition allDigits :: "string \<Rightarrow> bool" where
  "allDigits s \<longleftrightarrow> list_all isDigit s"

text \<open>
  What \<^verbatim>\<open>uiAmountToBN\<close> computes from the first two segments of the trimmed input.
\<close>

definition fromSegments :: "string \<Rightarrow> string \<Rightarrow> nat \<Rightarrow> error + bn" where
  "fromSegments whole fraction decimals =
     BN_of_string (orZero (stripLeadingZeros
       (orZero (stripZerosBeforeDigit whole) @ padEnd (substring0 fraction decimals) decimals)))"

text \<open>
  The exact value of the decimal numeral \<open>w.f\<close>, as a rational number.
\<close>

definition exactValue :: "string \<Rightarrow> string \<Rightarrow> rat" where
  "exactValue w f = of_nat (digitsVal w) + of_nat (digitsVal f) / 10 ^ length f"

text \<open>
  The part of a decimal string before its first point, and the part after it.
\<close>

definition wholePart :: "string \<Rightarrow> string" where
  "wholePart s = takeWhile (\<lambda>c. c \<noteq> CHR ''.'') s"

definition fractionPart :: "string \<Rightarrow> string" where
  "fractionPart s = drop 1 (dropWhile (\<lambda>c. c \<noteq> CHR ''.'') s)"

text \<open>
  The formatting contract in the words of the specification: with no decimal places
  the integer is printed verbatim; otherwise it is left-padded with zeros to at least
  \<open>d + 1\<close> digits, the last \<open>d\<close> digits are the fraction, trailing zeros of the
  fraction are stripped, and an empty fraction prints the whole part alone.
\<close>

definition toDecimalString :: "int \<Rightarrow> nat \<Rightarrow> string" where
  "toDecimalString n d =
     (if d = 0 then BN_toString n
      else
        let printed = BN_toString n;
            padded = replicate (d + 1 - length printed) (CHR ''0'') @ printed;
            whole = take (length padded - d) padded;
            fraction = stripTrailingZeros (drop (length padded - d) padded)
        in if fraction = [] then whole else whole @ ''.'' @ fraction)"

section \<open>On-chain data, the wallet and the network\<close>

text \<open>
  A \<^verbatim>\<open>PublicKey\<close> is identified with its base-58 text; \<^verbatim>\<open>new PublicKey(s)\<close> throws
  on a text that does not decode to 32 bytes (\<open>validPublicKey\<close> below), \<^verbatim>\<open>toBase58()\<close>
  gives the text back and \<^verbatim>\<open>equals\<close> is equality.
\<close>

type_synonym pubkey = string

type_synonym signature = string

text \<open>\<^verbatim>\<open>AccountInfo\<close>: the owning program and the length of \<^verbatim>\<open>data\<close>.\<close>

record account_info =
  info_owner :: pubkey
  info_dataLength :: nat

text \<open>The legacy transaction built by \<^verbatim>\<open>ensureAtaExists\<close>, with its fee payer.\<close>

record create_ata_tx =
  ix_payer :: pubkey
  ix_associatedToken :: pubkey
  ix_owner :: pubkey
  ix_mint :: pubkey
  tx_feePayer :: pubkey

text \<open>The arguments of \<^verbatim>\<open>raydium.clmm.swap\<close> that the repository chooses.\<close>

record swap_request =
  swap_inputMint :: pubkey
  swap_amountIn :: bn
  swap_amountOutMin :: int
  swap_observationId :: pubkey
  swap_useSOLBalance :: bool
  swap_feePayer :: pubkey
  swap_remainingAccounts :: "pubkey list"

subsection \<open>ClusterContext: the network a connection is bound to\<close>

datatype cluster = Devnet | Mainnet

record connection =
  rpcEndpoint :: "string option"
  rpcEndpointPrivate :: "string option"

text \<open>\<^verbatim>\<open>s.includes(sub)\<close>\<close>

fun includesStr :: "string \<Rightarrow> string \<Rightarrow> bool" where
  "includesStr [] sub = (sub = [])"
| "includesStr (c # cs) sub = (take (length sub) (c # cs) = sub \<or> includesStr cs sub)"

definition DEFAULT_CLUSTER :: string where
  "DEFAULT_CLUSTER = ''devnet''"

definition detectCluster :: "connection \<Rightarrow> cluster" where
  "detectCluster c =
     (let endpoint =
            (case rpcEndpoint c of Some s \<Rightarrow> s
             | None \<Rightarrow> (case rpcEndpointPrivate c of Some s \<Rightarrow> s | None \<Rightarrow> []))
      in if includesStr endpoint ''devnet'' then Devnet
         else if includesStr endpoint ''mainnet'' \<or> includesStr endpoint ''solana.com'' then Mainnet
         else if DEFAULT_CLUSTER = ''devnet'' then Devnet else Mainnet)"

text \<open>Every call that leaves the process, in the order issued.\<close>

datatype net_event =
    GetAccountInfo pubkey
  | RaydiumLoad cluster
  | SendTransaction create_ata_tx
  | GetLatestBlockhash
  | ConfirmTransaction signature
  | FetchWalletTokenAccounts
  | GetPoolInfoFromRpc pubkey
  | FetchEpochInfo
  | ExecuteSwap swap_request

text \<open>
  The chain as the RPC node shows it, and the log of network calls made so far.
\<close>

record world =
  accounts :: "pubkey \<rightharpoonup> account_info"
  events :: "net_event list"

text \<open>
  What becomes of a transaction handed to \<^verbatim>\<open>wallet.sendTransaction\<close>: the wallet or the
  node rejects it (the call throws); it is sent and executes; it is sent and confirmed
  with an execution error (\<^verbatim>\<open>confirmTransaction\<close> resolves, its \<^verbatim>\<open>value.err\<close> is set);
  or it is sent and \<^verbatim>\<open>confirmTransaction\<close> throws.
\<close>

datatype send_outcome =
    SendRejected
  | Landed signature
  | ConfirmedWithError signature
  | NotConfirmed signature

type_synonym vtx = string

record wallet =
  publicKey :: "pubkey option"
  sendTransaction :: "(create_ata_tx \<Rightarrow> send_outcome) option"
  signAllTransactions :: "(vtx list \<Rightarrow> error + vtx list) option"
  signTransaction :: "(vtx \<Rightarrow> error + vtx) option"

record mint_info =
  mint_address :: string
  mint_symbol :: "string option"
  mint_decimals :: nat

record pool_info =
  mintA :: mint_info
  mintB :: mint_info

text \<open>
  The result of \<^verbatim>\<open>raydium.clmm.getPoolInfoFromRpc\<close>: \<open>tickCache\<close> stands for
  \<^verbatim>\<open>snapshot.tickData?.[poolIdStr]\<close>; the compute info and the tick cache are opaque.
\<close>

record pool_snapshot =
  poolInfo :: pool_info
  computePoolInfo :: "nat option"
  tickCache :: "nat option"
  observationId :: string

record computation =
  allTrade :: bool
  minAmountOut :: int
  remainingAccounts :: "pubkey list"

record compute_request =
  cr_poolInfo :: nat
  cr_tickArrayCache :: nat
  cr_baseMint :: pubkey
  cr_amountIn :: bn
  cr_slippage :: rat

text \<open>
  The libraries and the RPC node, as far as the repository calls them: the key decoder,
  the SDK's two program identities and layout span, the derivation of associated
  token addresses, the pool-info fetch (\<open>None\<close> when the request fails), the pool-math
  oracle and the execution of the swap transaction (\<open>None\<close> when it is not sent or not
  confirmed).
\<close>

record env =
  validPublicKey :: "string \<Rightarrow> bool"
  CLMM_PROGRAM_ID :: pubkey
  DEVNET_CLMM_PROGRAM_ID :: "pubkey option"
  PoolInfoLayout_span :: "nat option"
  getAssociatedTokenAddressSync :: "pubkey \<Rightarrow> pubkey \<Rightarrow> pubkey"
  getPoolInfoFromRpc :: "pubkey \<Rightarrow> pool_snapshot option"
  computeAmountOut :: "compute_request \<Rightarrow> computation"
  execute :: "swap_request \<Rightarrow> string option"

definition WSOL_MINT :: pubkey where
  "WSOL_MINT = ''So11111111111111111111111111111111111111112''"

definition TOKEN_PROGRAM_ID :: pubkey where
  "TOKEN_PROGRAM_ID = ''TokenkegQfeZyiNwAJbNbGKPFXCWuBvf9Ss623VQ5DA''"

text \<open>\<^verbatim>\<open>const CLMM_POOL_ACCOUNT_SIZE = PoolInfoLayout.span ?? 1544\<close>\<close>

definition CLMM_POOL_ACCOUNT_SIZE :: "env \<Rightarrow> nat" where
  "CLMM_POOL_ACCOUNT_SIZE e = (case PoolInfoLayout_span e of Some n \<Rightarrow> n | None \<Rightarrow> 1544)"

subsection \<open>Sequencing of fallible, effectful steps\<close>

type_synonym 'a io = "world \<Rightarrow> (error + 'a) \<times> world"

definition returnIO :: "'a \<Rightarrow> 'a io" where
  "returnIO x = (\<lambda>w. (Inr x, w))"

definition throwIO :: "error \<Rightarrow> 'a io" where
  "throwIO e = (\<lambda>w. (Inl e, w))"

definition bindIO :: "'a io \<Rightarrow> ('a \<Rightarrow> 'b io) \<Rightarrow> 'b io" where
  "bindIO m f = (\<lambda>w. case m w of (Inl e, w') \<Rightarrow> (Inl e, w') | (Inr x, w') \<Rightarrow> f x w')"

definition emit :: "net_event \<Rightarrow> unit io" where
  "emit ev = (\<lambda>w. (Inr (), w\<lparr>events := events w @ [ev]\<rparr>))"

definition liftIO :: "error + 'a \<Rightarrow> 'a io" where
  "liftIO r = (case r of Inl e \<Rightarrow> throwIO e | Inr x \<Rightarrow> returnIO x)"

text \<open>\<^verbatim>\<open>new PublicKey(value)\<close>\<close>

definition newPublicKey :: "env \<Rightarrow> string \<Rightarrow> error + pubkey" where
  "newPublicKey e s = (if validPublicKey e s then Inr s else Inl InvalidAddress)"

text \<open>\<^verbatim>\<open>connection.getAccountInfo(key)\<close>\<close>

definition getAccountInfo :: "pubkey \<Rightarrow> account_info option io" where
  "getAccountInfo key = (\<lambda>w. (Inr (accounts w key), w\<lparr>events := events w @ [GetAccountInfo key]\<rparr>))"

section \<open>PoolResolver\<close>

text \<open>\<^verbatim>\<open>assertClmmPoolAccount(connection, poolId)\<close>\<close>

definition isClmmProgram :: "env \<Rightarrow> account_info \<Rightarrow> bool" where
  "isClmmProgram e info \<longleftrightarrow>
     info_owner info = CLMM_PROGRAM_ID e \<or>
     (case DEVNET_CLMM_PROGRAM_ID e of Some d \<Rightarrow> info_owner info = d | None \<Rightarrow> False)"

definition assertClmmPoolAccount :: "env \<Rightarrow> string \<Rightarrow> pubkey io" where
  "assertClmmPoolAccount e poolId =
     bindIO (liftIO (newPublicKey e poolId)) (\<lambda>pubkey.
     bindIO (getAccountInfo pubkey) (\<lambda>info.
       case info of
         None \<Rightarrow> throwIO PoolNotFound
       | Some i \<Rightarrow>
           if \<not> isClmmProgram e i then throwIO WrongProgramOwner
           else if info_dataLength i < CLMM_POOL_ACCOUNT_SIZE e then throwIO MalformedAccount
           else returnIO pubkey))"

section \<open>Signing capability and session\<close>

text \<open>
  The loop of the fallback signer: each transaction is passed to
  \<^verbatim>\<open>wallet.signTransaction\<close> in turn and the signed one is pushed; a rejection ends the
  loop.
\<close>

fun signEach :: "(vtx \<Rightarrow> error + vtx) \<Rightarrow> vtx list \<Rightarrow> vtx list \<Rightarrow> error + vtx list" where
  "signEach sign [] signed = Inr signed"
| "signEach sign (tx # txs) signed =
     (case sign tx of Inl e \<Rightarrow> Inl e | Inr signedTx \<Rightarrow> signEach sign txs (signed @ [signedTx]))"

text \<open>\<^verbatim>\<open>resolveSignAllTransactions(wallet)\<close>\<close>

definition resolveSignAllTransactions :: "wallet \<Rightarrow> error + (vtx list \<Rightarrow> error + vtx list)" where
  "resolveSignAllTransactions wl =
     (case signAllTransactions wl of
        Some signAll \<Rightarrow> Inr signAll
      | None \<Rightarrow>
          (case signTransaction wl of
             Some sign \<Rightarrow> Inr (\<lambda>transactions. signEach sign transactions [])
           | None \<Rightarrow> Inl WalletCannotSign))"

text \<open>
  \<^verbatim>\<open>createRaydiumContext(connection, wallet)\<close>: the session is loaded for the detected
  cluster and is represented by the owner's key.
\<close>

definition createRaydiumContext :: "connection \<Rightarrow> wallet \<Rightarrow> pubkey io" where
  "createRaydiumContext conn wl =
     (case publicKey wl of
        None \<Rightarrow> throwIO WalletNotConnected
      | Some pk \<Rightarrow>
          bindIO (liftIO (resolveSignAllTransactions wl)) (\<lambda>signAll.
          bindIO (emit (RaydiumLoad (detectCluster conn))) (\<lambda>_.
          returnIO pk)))"

section \<open>AccountProvisioner\<close>

text \<open>The token account a confirmed creation leaves on the chain.\<close>

definition newTokenAccount :: account_info where
  "newTokenAccount = \<lparr>info_owner = TOKEN_PROGRAM_ID, info_dataLength = 165\<rparr>"

text \<open>
  \<^verbatim>\<open>wallet.sendTransaction(tx, connection)\<close> followed by \<^verbatim>\<open>getLatestBlockhash\<close> and
  \<^verbatim>\<open>confirmTransaction\<close>, whose resolved value the code does not read.
\<close>

definition sendAndConfirm :: "(create_ata_tx \<Rightarrow> send_outcome) \<Rightarrow> create_ata_tx \<Rightarrow> unit io" where
  "sendAndConfirm send tx =
     bindIO (emit (SendTransaction tx)) (\<lambda>_.
       case send tx of
         SendRejected \<Rightarrow> throwIO AccountCreationFailed
       | Landed sg \<Rightarrow>
           bindIO (\<lambda>w. (Inr (), w\<lparr>accounts := (accounts w)(ix_associatedToken tx \<mapsto> newTokenAccount)\<rparr>)) (\<lambda>_.
           bindIO (emit GetLatestBlockhash) (\<lambda>_.
           emit (ConfirmTransaction sg)))
       | ConfirmedWithError sg \<Rightarrow>
           bindIO (emit GetLatestBlockhash) (\<lambda>_.
           emit (ConfirmTransaction sg))
       | NotConfirmed sg \<Rightarrow>
           bindIO (emit GetLatestBlockhash) (\<lambda>_.
           bindIO (emit (ConfirmTransaction sg)) (\<lambda>_.
           throwIO AccountCreationFailed)))"

text \<open>\<^verbatim>\<open>ensureAtaExists(connection, wallet, owner, mint)\<close>\<close>

definition ensureAtaExists :: "env \<Rightarrow> wallet \<Rightarrow> pubkey \<Rightarrow> pubkey \<Rightarrow> pubkey io" where
  "ensureAtaExists e wl ownerKey mint =
     (let ata = getAssociatedTokenAddressSync e mint ownerKey in
      bindIO (getAccountInfo ata) (\<lambda>info.
        case info of
          Some _ \<Rightarrow> returnIO ata
        | None \<Rightarrow>
            (case sendTransaction wl of
               None \<Rightarrow> throwIO WalletCannotSend
             | Some send \<Rightarrow>
                 bindIO (sendAndConfirm send
                    \<lparr>ix_payer = ownerKey, ix_associatedToken = ata, ix_owner = ownerKey,
                     ix_mint = mint, tx_feePayer = ownerKey\<rparr>) (\<lambda>_.
                 returnIO ata))))"



section \<open>Vocabulary and sample data for the network-facing claims\<close>

text \<open>
  The specification's allow-list: one program identity for each network variant.
\<close>

definition networkProgramId :: "env \<Rightarrow> cluster \<Rightarrow> pubkey option" where
  "networkProgramId e cl =
     (case cl of Mainnet \<Rightarrow> Some (CLMM_PROGRAM_ID e) | Devnet \<Rightarrow> DEVNET_CLMM_PROGRAM_ID e)"

text \<open>
  A small environment for concrete runs: keys are four characters long, the pool
  \<^verbatim>\<open>Pool\<close> trades \<^verbatim>\<open>SOL1\<close> against \<^verbatim>\<open>USDC\<close>, and it is owned by the mainnet program.
\<close>

definition exampleEnv :: env where
  "exampleEnv =
     \<lparr>validPublicKey = (\<lambda>s. length s = 4),
      CLMM_PROGRAM_ID = ''CAMM'',
      DEVNET_CLMM_PROGRAM_ID = Some ''devi'',
      PoolInfoLayout_span = Some 1544,
      getAssociatedTokenAddressSync = (\<lambda>mint ownerKey. ''A'' @ take 1 mint @ take 2 ownerKey),
      getPoolInfoFromRpc = (\<lambda>pool.
         Some \<lparr>poolInfo = \<lparr>mintA = \<lparr>mint_address = ''SOL1'', mint_symbol = Some ''SOL'', mint_decimals = 9\<rparr>,
                          mintB = \<lparr>mint_address = ''USDC'', mint_symbol = Some ''USDC'', mint_decimals = 6\<rparr>\<rparr>,
              computePoolInfo = Some 0, tickCache = Some 0, observationId = ''obsv''\<rparr>),
      computeAmountOut = (\<lambda>r. \<lparr>allTrade = True, minAmountOut = (case cr_amountIn r of BN n \<Rightarrow> n | BNEmpty _ \<Rightarrow> 0),
                                  remainingAccounts = []\<rparr>),
      execute = (\<lambda>r. Some ''txid'')\<rparr>"

definition devnetConnection :: connection where
  "devnetConnection = \<lparr>rpcEndpoint = Some ''https://api.devnet.solana.com'', rpcEndpointPrivate = None\<rparr>"

definition exampleWorld :: world where
  "exampleWorld =
     \<lparr>accounts = [''Pool'' \<mapsto> \<lparr>info_owner = ''CAMM'', info_dataLength = 1544\<rparr>],
      events = []\<rparr>"

text \<open>Sample wallets: a batch signer, a single signer that refuses one transaction.\<close>

definition exampleSignAll :: "vtx list \<Rightarrow> error + vtx list" where
  "exampleSignAll txs = Inr (map (\<lambda>t. ''B:'' @ t) txs)"

definition exampleSign :: "vtx \<Rightarrow> error + vtx" where
  "exampleSign t = (if t = ''bad'' then Inl WalletCannotSign else Inr (''S:'' @ t))"

definition exampleWallet :: wallet where
  "exampleWallet =
     \<lparr>publicKey = Some ''Ownr'',
      sendTransaction = Some (\<lambda>tx. Landed ''sig1''),
      signAllTransactions = Some exampleSignAll,
      signTransaction = Some exampleSign\<rparr>"

text \<open>The creation transaction \<^verbatim>\<open>ensureAtaExists\<close> builds for an owner, address and mint.\<close>

definition createAtaTx :: "pubkey \<Rightarrow> pubkey \<Rightarrow> pubkey \<Rightarrow> create_ata_tx" where
  "createAtaTx ownerKey ata mint =
     \<lparr>ix_payer = ownerKey, ix_associatedToken = ata, ix_owner = ownerKey,
      ix_mint = mint, tx_feePayer = ownerKey\<rparr>"

section \<open>LiquidityComputer and SwapExecutor\<close>

record swap_params =
  p_poolId :: string
  p_tokenInMint :: string
  p_tokenOutMint :: string
  p_amount :: string
  p_slippage :: "rat option"

record swap_result =
  txId :: string
  amountOut :: int
  amountOutUi :: string
  outputMint :: pubkey
  outputSymbol :: "string option"

text \<open>
  The selection of a mint of the pool by address:
  \<^verbatim>\<open>mintA.address === m ? mintA : mintB.address === m ? mintB : null\<close>.
\<close>

definition findMint :: "pool_info \<Rightarrow> pubkey \<Rightarrow> mint_info option" where
  "findMint pinfo mint =
     (if mint_address (mintA pinfo) = mint then Some (mintA pinfo)
      else if mint_address (mintB pinfo) = mint then Some (mintB pinfo)
      else None)"

text \<open>
  The network calls of \<^verbatim>\<open>performClmmSwap\<close> between the parsing of the mints and the
  checks on the pool's data: the pool account, the session, the two associated
  accounts, the wallet's token accounts and the pool info.
\<close>

definition resolveAndProvision ::
  "env \<Rightarrow> connection \<Rightarrow> wallet \<Rightarrow> string \<Rightarrow> pubkey \<Rightarrow> pubkey \<Rightarrow> (pubkey \<times> pubkey \<times> pool_snapshot) io" where
  "resolveAndProvision e conn wl poolId inputMint outputMintKey =
     bindIO (assertClmmPoolAccount e poolId) (\<lambda>poolPubkey.
     bindIO (createRaydiumContext conn wl) (\<lambda>ownerPubkey.
     bindIO (ensureAtaExists e wl ownerPubkey inputMint) (\<lambda>_.
     bindIO (ensureAtaExists e wl ownerPubkey outputMintKey) (\<lambda>_.
     bindIO (emit FetchWalletTokenAccounts) (\<lambda>_.
     bindIO (emit (GetPoolInfoFromRpc poolPubkey)) (\<lambda>_.
       case getPoolInfoFromRpc e poolPubkey of
         None \<Rightarrow> throwIO TransportError
       | Some snapshot \<Rightarrow> returnIO (ownerPubkey, poolPubkey, snapshot)))))))"

text \<open>
  The checks of \<^verbatim>\<open>performClmmSwap\<close> on the fetched pool data, in the order of the
  source: the input mint, the output mint, the converted amount, the tick cache and
  the compute info.
\<close>

definition validateSwap ::
  "pool_snapshot \<Rightarrow> pubkey \<Rightarrow> pubkey \<Rightarrow> string \<Rightarrow> error + (mint_info \<times> bn \<times> nat \<times> nat)" where
  "validateSwap snapshot inputMint outputMintKey amountInput =
     (case findMint (poolInfo snapshot) inputMint of
        None \<Rightarrow> Inl TokenNotInPool
      | Some inputMintInfo \<Rightarrow>
          (case findMint (poolInfo snapshot) outputMintKey of
             None \<Rightarrow> Inl TokenNotInPool
           | Some outputMintInfo \<Rightarrow>
               (case uiAmountToBN amountInput (mint_decimals inputMintInfo) of
                  Inl err \<Rightarrow> Inl err
                | Inr amountIn \<Rightarrow>
                    if amountRejected amountIn then Inl NonPositiveAmount
                    else (case tickCache snapshot of
                            None \<Rightarrow> Inl PoolDataUnavailable
                          | Some tc \<Rightarrow>
                              (case computePoolInfo snapshot of
                                 None \<Rightarrow> Inl PoolDataUnavailable
                               | Some ci \<Rightarrow> Inr (outputMintInfo, amountIn, tc, ci))))))"

text \<open>
  The rest of \<^verbatim>\<open>performClmmSwap\<close>: the epoch fetch, the pool-math oracle, the swap
  transaction and its execution, and the result.
\<close>

definition computeAndExecute ::
  "env \<Rightarrow> pubkey \<Rightarrow> pool_snapshot \<Rightarrow> pubkey \<Rightarrow> pubkey \<Rightarrow> rat \<Rightarrow> mint_info \<Rightarrow> bn \<Rightarrow> nat \<Rightarrow> nat
     \<Rightarrow> swap_result io" where
  "computeAndExecute e ownerPubkey snapshot inputMint outputMintKey slippage outputMintInfo amountIn tc ci =
     bindIO (emit FetchEpochInfo) (\<lambda>_.
       let comp = computeAmountOut e
             \<lparr>cr_poolInfo = ci, cr_tickArrayCache = tc, cr_baseMint = inputMint,
              cr_amountIn = amountIn, cr_slippage = slippage\<rparr>
       in if \<not> allTrade comp then throwIO InsufficientLiquidity
          else
            bindIO (liftIO (newPublicKey e (observationId snapshot))) (\<lambda>observation.
              let request =
                    \<lparr>swap_inputMint = inputMint, swap_amountIn = amountIn,
                     swap_amountOutMin = minAmountOut comp, swap_observationId = observation,
                     swap_useSOLBalance = (inputMint = WSOL_MINT), swap_feePayer = ownerPubkey,
                     swap_remainingAccounts = remainingAccounts comp\<rparr>
              in bindIO (emit (ExecuteSwap request)) (\<lambda>_.
                   case execute e request of
                     None \<Rightarrow> throwIO TransactionSendFailed
                   | Some tx \<Rightarrow>
                       returnIO
                         \<lparr>txId = tx, amountOut = minAmountOut comp,
                          amountOutUi = formatTokenAmount (minAmountOut comp) (mint_decimals outputMintInfo),
                          outputMint = outputMintKey, outputSymbol = mint_symbol outputMintInfo\<rparr>)))"

text \<open>\<^verbatim>\<open>performClmmSwap(params)\<close>\<close>

definition performClmmSwap :: "env \<Rightarrow> connection \<Rightarrow> wallet \<Rightarrow> swap_params \<Rightarrow> swap_result io" where
  "performClmmSwap e conn wl p =
     (let slippage = (case p_slippage p of Some s \<Rightarrow> s | None \<Rightarrow> 1 / 100) in
      case publicKey wl of
        None \<Rightarrow> throwIO WalletNotConnected
      | Some _ \<Rightarrow>
          (case sendTransaction wl of
             None \<Rightarrow> throwIO WalletCannotSend
           | Some _ \<Rightarrow>
               bindIO (liftIO (newPublicKey e (p_tokenInMint p))) (\<lambda>inputMint.
               bindIO (liftIO (newPublicKey e (p_tokenOutMint p))) (\<lambda>outputMintKey.
               bindIO (resolveAndProvision e conn wl (p_poolId p) inputMint outputMintKey)
                 (\<lambda>(ownerPubkey, poolPubkey, snapshot).
               bindIO (liftIO (validateSwap snapshot inputMint outputMintKey (p_amount p)))
                 (\<lambda>(outputMintInfo, amountIn, tc, ci).
               computeAndExecute e ownerPubkey snapshot inputMint outputMintKey slippage
                 outputMintInfo amountIn tc ci))))))"


definition zeroAmountParams :: swap_params where
  "zeroAmountParams =
     \<lparr>p_poolId = ''Pool'', p_tokenInMint = ''SOL1'', p_tokenOutMint = ''USDC'',
      p_amount = ''0'', p_slippage = None\<rparr>"

section \<open>PoolSnapshotService: the snapshot watch of \<^verbatim>\<open>useClmmSwap\<close>\<close>

record clmm_pool_snapshot =
  snap_id :: string
  snap_mintA :: mint_info
  snap_mintB :: mint_info
  snap_price :: rat
  snap_tickCurrent :: int

text \<open>
  One run of the effect that started a fetch: the address it fetches and its own
  \<^verbatim>\<open>cancelled\<close> variable, which the handlers of its promise read.
\<close>

record fetch_run =
  fetch_address :: string
  cancelled :: bool

text \<open>
  The shared state of the hook (\<^verbatim>\<open>poolSnapshot\<close>, \<^verbatim>\<open>snapshotError\<close>,
  \<^verbatim>\<open>snapshotLoading\<close>), the effect runs that started a fetch, in the order started, and
  the run whose clean-up function React holds, if any.
\<close>

record hook_state =
  poolSnapshot :: "clmm_pool_snapshot option"
  snapshotError :: "string option"
  snapshotLoading :: bool
  fetches :: "fetch_run list"
  cleanup :: "nat option"

definition initialHook :: hook_state where
  "initialHook =
     \<lparr>poolSnapshot = None, snapshotError = None, snapshotLoading = False,
      fetches = [], cleanup = None\<rparr>"

text \<open>
  What can happen to the hook: the dependencies \<^verbatim>\<open>[connection, form.poolAddress]\<close>
  change to a new address; the promise of the fetch with a given index fulfils with a
  snapshot or rejects (with the message of an \<^verbatim>\<open>Error\<close>, or with another value); the
  component unmounts.
\<close>

datatype hook_event =
    DepsChanged string
  | Resolved nat clmm_pool_snapshot
  | Rejected nat "string option"
  | Unmount

text \<open>The clean-up function returned by the effect: \<^verbatim>\<open>() => { cancelled = true; }\<close>.\<close>

definition runCleanup :: "hook_state \<Rightarrow> hook_state" where
  "runCleanup s =
     (case cleanup s of
        None \<Rightarrow> s
      | Some i \<Rightarrow>
          if i < length (fetches s)
          then s\<lparr>fetches := (fetches s)[i := (fetches s ! i)\<lparr>cancelled := True\<rparr>], cleanup := None\<rparr>
          else s\<lparr>cleanup := None\<rparr>)"

text \<open>The body of the effect, up to the start of the fetch.\<close>

definition runEffect :: "(string \<Rightarrow> bool) \<Rightarrow> string \<Rightarrow> hook_state \<Rightarrow> hook_state" where
  "runEffect isValidAddress poolAddress s =
     (if \<not> isValidAddress poolAddress
      then s\<lparr>poolSnapshot := None, snapshotError := Some ''Enter a valid CLMM pool address.''\<rparr>
      else s\<lparr>snapshotLoading := True, snapshotError := None,
             fetches := fetches s @ [\<lparr>fetch_address = poolAddress, cancelled = False\<rparr>],
             cleanup := Some (length (fetches s))\<rparr>)"

text \<open>The handlers \<^verbatim>\<open>.then\<close>, \<^verbatim>\<open>.catch\<close> and \<^verbatim>\<open>.finally\<close> of the promise of run \<open>i\<close>.\<close>

definition onResolved :: "nat \<Rightarrow> clmm_pool_snapshot \<Rightarrow> hook_state \<Rightarrow> hook_state" where
  "onResolved i snapshot s =
     (if i < length (fetches s)
      then (if cancelled (fetches s ! i) then s
            else s\<lparr>poolSnapshot := Some snapshot, snapshotLoading := False\<rparr>)
      else s)"

definition onRejected :: "nat \<Rightarrow> string option \<Rightarrow> hook_state \<Rightarrow> hook_state" where
  "onRejected i err s =
     (if i < length (fetches s)
      then (if cancelled (fetches s ! i) then s
            else s\<lparr>poolSnapshot := None,
                   snapshotError := Some (case err of Some message \<Rightarrow> message
                                          | None \<Rightarrow> ''Unable to load CLMM pool data.''),
                   snapshotLoading := False\<rparr>)
      else s)"

text \<open>
  One step: when the dependencies change React runs the clean-up of the previous run
  and then the effect; a settled promise runs its handlers.
\<close>

fun hookStep :: "(string \<Rightarrow> bool) \<Rightarrow> hook_state \<Rightarrow> hook_event \<Rightarrow> hook_state" where
  "hookStep v s (DepsChanged poolAddress) = runEffect v poolAddress (runCleanup s)"
| "hookStep v s (Resolved i snapshot) = onResolved i snapshot s"
| "hookStep v s (Rejected i err) = onRejected i err s"
| "hookStep v s Unmount = runCleanup s"

definition hookRun :: "(string \<Rightarrow> bool) \<Rightarrow> hook_event list \<Rightarrow> hook_state \<Rightarrow> hook_state" where
  "hookRun v evs s = foldl (hookStep v) s evs"

text \<open>Every run but the one whose clean-up React holds is cancelled.\<close>

definition othersCancelled :: "hook_state \<Rightarrow> bool" where
  "othersCancelled s \<longleftrightarrow>
     (\<forall>i < length (fetches s). cleanup s \<noteq> Some i \<longrightarrow> cancelled (fetches s ! i))"

text \<open>Sample snapshots of two pools.\<close>

definition snapshotA :: clmm_pool_snapshot where
  "snapshotA =
     \<lparr>snap_id = ''PoolA'',
      snap_mintA = \<lparr>mint_address = ''SOL1'', mint_symbol = Some ''SOL'', mint_decimals = 9\<rparr>,
      snap_mintB = \<lparr>mint_address = ''USDC'', mint_symbol = Some ''USDC'', mint_decimals = 6\<rparr>,
      snap_price = 150, snap_tickCurrent = - 20\<rparr>"

definition snapshotB :: clmm_pool_snapshot where
  "snapshotB = snapshotA\<lparr>snap_id := ''PoolB'', snap_price := 2\<rparr>"



section \<open>Digit strings\<close>

lemma isDigit_digitChar: "k < 10 \<Longrightarrow> isDigit (digitChar k)"
  by (simp add: isDigit_def digitChar_def)

lemma digitValue_digitChar: "k < 10 \<Longrightarrow> digitValue (digitChar k) = k"
  by (simp add: digitValue_def digitChar_def)

lemma isDigit_not_ws: "isDigit c \<Longrightarrow> \<not> isWhiteSpace c"
  by (auto simp: isDigit_def isWhiteSpace_def)

lemma isDigit_not_dot: "isDigit c \<Longrightarrow> c \<noteq> CHR ''.''"
  by (auto simp: isDigit_def)

lemma isDigit_not_minus: "isDigit c \<Longrightarrow> c \<noteq> CHR ''-''"
  by (auto simp: isDigit_def)

lemma isDigit_zero: "isDigit (CHR ''0'')"
  by (simp add: isDigit_def)

lemma digitValue_zero: "digitValue (CHR ''0'') = 0"
  by (simp add: digitValue_def)

lemma dot_not_ws: "\<not> isWhiteSpace (CHR ''.'')"
  by (simp add: isWhiteSpace_def)

lemma foldl_digits_shift:
  "foldl (\<lambda>r c. r * 10 + digitValue c) r s = r * 10 ^ length s + digitsVal s"
proof (induction s arbitrary: r)
  case Nil
  show ?case by (simp add: digitsVal_def)
next
  case (Cons c cs)
  have a: "foldl (\<lambda>r c. r * 10 + digitValue c) (r * 10 + digitValue c) cs
             = (r * 10 + digitValue c) * 10 ^ length cs + digitsVal cs"
    by (rule Cons.IH)
  have b: "digitsVal (c # cs) = digitValue c * 10 ^ length cs + digitsVal cs"
    using Cons.IH [of "digitValue c"] by (simp add: digitsVal_def)
  show ?case
    using a b by (simp add: algebra_simps)
qed

lemma digitsVal_Nil: "digitsVal [] = 0"
  by (simp add: digitsVal_def)

lemma digitsVal_Cons: "digitsVal (c # cs) = digitValue c * 10 ^ length cs + digitsVal cs"
  using foldl_digits_shift [of "digitValue c" cs] by (simp add: digitsVal_def)

lemma digitsVal_append: "digitsVal (a @ b) = digitsVal a * 10 ^ length b + digitsVal b"
  by (induction a) (simp_all add: digitsVal_Nil digitsVal_Cons power_add algebra_simps)

lemma digitsVal_replicate_zero: "digitsVal (replicate k (CHR ''0'')) = 0"
  by (induction k) (simp_all add: digitsVal_Nil digitsVal_Cons digitValue_zero)

lemma parseBase_allDigits:
  "allDigits s \<Longrightarrow> parseBase r s = Inr (r * 10 ^ length s + digitsVal s)"
proof (induction s arbitrary: r)
  case Nil
  show ?case by (simp add: digitsVal_Nil)
next
  case (Cons c cs)
  then show ?case
    by (simp add: allDigits_def digitsVal_Cons algebra_simps)
qed

lemma BN_of_string_allDigits:
  assumes "allDigits s"
  shows "BN_of_string s = Inr (BN (int (digitsVal s)))"
proof -
  have f: "filter (\<lambda>c. \<not> isWhiteSpace c) s = s"
    using assms by (auto simp: allDigits_def list_all_iff isDigit_not_ws intro: filter_True)
  show ?thesis
  proof (cases s)
    case Nil
    then show ?thesis by (simp add: BN_of_string_def digitsVal_Nil)
  next
    case (Cons c cs)
    with assms have "c \<noteq> CHR ''-''" by (auto simp: allDigits_def isDigit_not_minus)
    moreover have "parseBase 0 s = Inr (digitsVal s)"
      using parseBase_allDigits [OF assms, of 0] by simp
    ultimately show ?thesis
      using Cons f by (simp add: BN_of_string_def)
  qed
qed

lemma allDigits_natToString: "allDigits (natToString n)"
proof (induction n rule: natToString.induct)
  case (1 n)
  show ?case
  proof (cases "n < 10")
    case True
    then show ?thesis
      by (subst natToString.simps) (simp add: allDigits_def isDigit_digitChar)
  next
    case False
    then show ?thesis
      using 1 by (subst natToString.simps) (simp add: allDigits_def isDigit_digitChar)
  qed
qed

lemma natToString_nonempty: "natToString n \<noteq> []"
  by (subst natToString.simps) simp

lemma digitsVal_natToString: "digitsVal (natToString n) = n"
proof (induction n rule: natToString.induct)
  case (1 n)
  show ?case
  proof (cases "n < 10")
    case True
    then show ?thesis
      by (subst natToString.simps) (simp add: digitsVal_Cons digitsVal_Nil digitValue_digitChar)
  next
    case False
    then show ?thesis
      using 1 by (subst natToString.simps)
        (simp add: digitsVal_append digitsVal_Cons digitsVal_Nil digitValue_digitChar)
  qed
qed

lemma allDigits_append: "allDigits (a @ b) \<longleftrightarrow> allDigits a \<and> allDigits b"
  by (simp add: allDigits_def)

lemma allDigits_stripZerosBeforeDigit:
  "allDigits s \<Longrightarrow> allDigits (stripZerosBeforeDigit s)"
  by (induction s rule: stripZerosBeforeDigit.induct) (auto simp: allDigits_def)

lemma digitsVal_stripZerosBeforeDigit:
  "digitsVal (stripZerosBeforeDigit s) = digitsVal s"
  by (induction s rule: stripZerosBeforeDigit.induct)
     (auto simp: digitsVal_Cons digitValue_zero)

lemma stripZerosBeforeDigit_nonempty: "s \<noteq> [] \<Longrightarrow> stripZerosBeforeDigit s \<noteq> []"
  by (induction s rule: stripZerosBeforeDigit.induct) auto

lemma allDigits_orZero: "allDigits s \<Longrightarrow> allDigits (orZero s)"
  by (simp add: orZero_def allDigits_def isDigit_zero)

lemma digitsVal_orZero: "digitsVal (orZero s) = digitsVal s"
  by (simp add: orZero_def digitsVal_Nil digitsVal_Cons digitValue_zero)

lemma allDigits_stripLeadingZeros: "allDigits s \<Longrightarrow> allDigits (stripLeadingZeros s)"
  unfolding stripLeadingZeros_def allDigits_def list_all_iff
  by (auto dest: set_dropWhileD)

lemma digitsVal_stripLeadingZeros: "digitsVal (stripLeadingZeros s) = digitsVal s"
  by (induction s) (simp_all add: stripLeadingZeros_def isZeroChar_def digitsVal_Cons digitValue_zero)


lemma trim_id:
  assumes "s \<noteq> []" "\<not> isWhiteSpace (hd s)" "\<not> isWhiteSpace (last s)"
  shows "trim s = s"
proof -
  have a: "dropWhile isWhiteSpace s = s"
    using assms(1,2) by (cases s) simp_all
  have b: "dropWhile isWhiteSpace (rev s) = rev s"
    using assms(1,3) by (cases "rev s") (simp_all add: hd_rev [symmetric])
  show ?thesis by (simp add: trim_def a b)
qed

lemma split_no_sep: "sep \<notin> set a \<Longrightarrow> split sep a = [a]"
  by (induction a) auto

lemma split_append_sep: "sep \<notin> set a \<Longrightarrow> split sep (a @ sep # r) = a # split sep r"
  by (induction a) auto

lemma allDigits_no_dot: "allDigits s \<Longrightarrow> CHR ''.'' \<notin> set s"
  by (auto simp: allDigits_def list_all_iff dest: isDigit_not_dot)

lemma uiAmountToBN_segments:
  assumes "trim s \<noteq> []" "\<not> startsWithMinus (trim s)"
  shows "uiAmountToBN s d =
           fromSegments (destructWhole (split (CHR ''.'') (trim s)))
                        (destructFraction (split (CHR ''.'') (trim s))) d"
  using assms by (simp add: uiAmountToBN_def fromSegments_def Let_def)

lemma allDigits_padEnd: "allDigits s \<Longrightarrow> allDigits (padEnd s n)"
  by (auto simp: padEnd_def allDigits_def list_all_iff isDigit_zero)

lemma digitsVal_padEnd: "digitsVal (padEnd s n) = digitsVal s * 10 ^ (n - length s)"
  by (simp add: padEnd_def digitsVal_append digitsVal_replicate_zero)

lemma allDigits_take: "allDigits s \<Longrightarrow> allDigits (take n s)"
  by (auto simp: allDigits_def list_all_iff dest: in_set_takeD)

lemma allDigits_drop: "allDigits s \<Longrightarrow> allDigits (drop n s)"
  by (auto simp: allDigits_def list_all_iff dest: in_set_dropD)

lemma fromSegments_allDigits:
  assumes "allDigits w" "allDigits f"
  shows "fromSegments w f d =
           Inr (BN (int (digitsVal w * 10 ^ d + digitsVal (padEnd (take d f) d))))"
proof -
  let ?wd = "orZero (stripZerosBeforeDigit w)"
  let ?fd = "padEnd (take d f) d"
  have wd: "allDigits ?wd" "digitsVal ?wd = digitsVal w"
    using assms(1)
    by (simp_all add: allDigits_orZero allDigits_stripZerosBeforeDigit
          digitsVal_orZero digitsVal_stripZerosBeforeDigit)
  have fd: "allDigits ?fd" "length ?fd = d"
    using assms(2) by (simp_all add: allDigits_padEnd allDigits_take) (simp add: padEnd_def)
  have c: "allDigits (orZero (stripLeadingZeros (?wd @ ?fd)))"
    using wd(1) fd(1) by (simp add: allDigits_orZero allDigits_stripLeadingZeros allDigits_append)
  have v: "digitsVal (orZero (stripLeadingZeros (?wd @ ?fd))) = digitsVal w * 10 ^ d + digitsVal ?fd"
    by (simp add: digitsVal_orZero digitsVal_stripLeadingZeros digitsVal_append
          digitsVal_stripZerosBeforeDigit fd(2))
  show ?thesis
    unfolding fromSegments_def substring0_def
    using BN_of_string_allDigits [OF c] v by simp
qed

lemma trim_decimal:
  assumes "allDigits w" "allDigits f"
  shows "trim (w @ CHR ''.'' # f) = w @ CHR ''.'' # f"
proof (rule trim_id)
  show "w @ CHR ''.'' # f \<noteq> []" by simp
  show "\<not> isWhiteSpace (hd (w @ CHR ''.'' # f))"
    using assms(1) by (cases w) (simp_all add: dot_not_ws allDigits_def isDigit_not_ws)
  show "\<not> isWhiteSpace (last (w @ CHR ''.'' # f))"
  proof (cases "f = []")
    case True
    then show ?thesis by (simp add: dot_not_ws)
  next
    case False
    then have "last f \<in> set f" by simp
    then have "isDigit (last f)" using assms(2) by (simp add: allDigits_def list_all_iff)
    then show ?thesis using False by (simp add: isDigit_not_ws)
  qed
qed

lemma not_startsWithMinus_decimal:
  "allDigits w \<Longrightarrow> \<not> startsWithMinus (w @ CHR ''.'' # f)"
  by (cases w) (auto simp: startsWithMinus_def allDigits_def dest: isDigit_not_minus)

lemma uiAmountToBN_decimal:
  assumes "allDigits w" "allDigits f"
  shows "uiAmountToBN (w @ CHR ''.'' # f) d =
           Inr (BN (int (digitsVal w * 10 ^ d + digitsVal (padEnd (take d f) d))))"
proof -
  have t: "trim (w @ CHR ''.'' # f) = w @ CHR ''.'' # f"
    by (rule trim_decimal [OF assms])
  have sp: "split (CHR ''.'') (w @ CHR ''.'' # f) = [w, f]"
    using assms by (simp add: split_append_sep split_no_sep allDigits_no_dot)
  have "uiAmountToBN (w @ CHR ''.'' # f) d = fromSegments w f d"
    using uiAmountToBN_segments [of "w @ CHR ''.'' # f" d] not_startsWithMinus_decimal [OF assms(1), of f]
    by (simp add: t sp destructWhole_def destructFraction_def)
  then show ?thesis
    by (simp add: fromSegments_allDigits [OF assms])
qed

lemma uiAmountToBN_integer:
  assumes "allDigits w" "w \<noteq> []"
  shows "uiAmountToBN w d = Inr (BN (int (digitsVal w * 10 ^ d)))"
proof -
  have hd: "isDigit (hd w)" "isDigit (last w)"
    using assms by (simp_all add: allDigits_def list_all_iff)
  have t: "trim w = w"
    using assms(2) hd by (intro trim_id) (simp_all add: isDigit_not_ws)
  have m: "\<not> startsWithMinus w"
    using assms hd(1) by (cases w) (auto simp: startsWithMinus_def dest: isDigit_not_minus)
  have sp: "split (CHR ''.'') w = [w]"
    using assms(1) by (simp add: split_no_sep allDigits_no_dot)
  have "uiAmountToBN w d = fromSegments w [] d"
    using uiAmountToBN_segments [of w d] assms(2) m
    by (simp add: t sp destructWhole_def destructFraction_def)
  moreover have "allDigits []" by (simp add: allDigits_def)
  ultimately show ?thesis
    by (simp add: fromSegments_allDigits [OF assms(1)] digitsVal_padEnd digitsVal_Nil)
qed

lemma stripTrailingZeros_decomp:
  "stripTrailingZeros s @ replicate (length s - length (stripTrailingZeros s)) (CHR ''0'') = s"
proof -
  let ?t = "takeWhile isZeroChar (rev s)"
  let ?d = "dropWhile isZeroChar (rev s)"
  have "\<forall>c\<in>set ?t. c = CHR ''0''"
    by (auto simp: isZeroChar_def dest: set_takeWhileD)
  then have t: "?t = replicate (length ?t) (CHR ''0'')"
    by (simp add: replicate_length_same)
  have "rev s = ?t @ ?d" by simp
  then have "s = rev ?d @ rev ?t" by (metis rev_append rev_rev_ident)
  moreover have "rev ?t = replicate (length ?t) (CHR ''0'')"
    using t by (metis rev_replicate)
  moreover have "length s - length (rev ?d) = length ?t"
  proof -
    have "length (rev s) = length ?t + length ?d"
      by (metis length_append takeWhile_dropWhile_id)
    then show ?thesis by simp
  qed
  ultimately show ?thesis
    by (simp add: stripTrailingZeros_def)
qed

lemma length_stripTrailingZeros: "length (stripTrailingZeros s) \<le> length s"
  by (simp add: stripTrailingZeros_def length_dropWhile_le [of isZeroChar "rev s", simplified])

lemma allDigits_stripTrailingZeros: "allDigits s \<Longrightarrow> allDigits (stripTrailingZeros s)"
  unfolding stripTrailingZeros_def allDigits_def list_all_iff
  by (auto dest: set_dropWhileD)


lemma padEnd_stripTrailingZeros:
  "length f = d \<Longrightarrow> padEnd (take d (stripTrailingZeros f)) d = f"
  using stripTrailingZeros_decomp [of f] length_stripTrailingZeros [of f]
  by (simp add: padEnd_def)

lemma allDigits_padStart: "allDigits s \<Longrightarrow> allDigits (padStart s n)"
  by (auto simp: padStart_def allDigits_def list_all_iff isDigit_zero)

lemma digitsVal_padStart: "digitsVal (padStart s n) = digitsVal s"
  by (simp add: padStart_def digitsVal_append digitsVal_replicate_zero)

lemma length_padStart: "length (padStart s n) = max n (length s)"
  by (simp add: padStart_def)

lemma BN_toString_nat: "BN_toString (int m) = natToString m"
  by (simp add: BN_toString_def)

lemma formatTokenAmount_zero_decimals: "formatTokenAmount n 0 = BN_toString n"
  by (simp add: formatTokenAmount_def)

lemma formatTokenAmount_pos_decimals:
  assumes "0 < d"
  shows "formatTokenAmount n d =
     (let raw = padStart (BN_toString n) (d + 1);
          whole = take (length raw - d) raw;
          fraction = stripTrailingZeros (drop (length raw - d) raw)
      in if fraction = [] then whole else whole @ CHR ''.'' # fraction)"
proof -
  let ?raw = "padStart (BN_toString n) (d + 1)"
  have "d + 1 \<le> length ?raw" by (simp add: length_padStart)
  then have "take (length ?raw - d) ?raw \<noteq> []" by auto
  then show ?thesis
    using assms
    by (simp add: formatTokenAmount_def Let_def sliceUntilLast_def sliceLast_def orZero_def)
qed

lemma roundtrip_nat: "uiAmountToBN (formatTokenAmount (int m) d) d = Inr (BN (int m))"
proof (cases "d = 0")
  case True
  then show ?thesis
    using uiAmountToBN_integer [OF allDigits_natToString natToString_nonempty, of m 0]
    by (simp add: formatTokenAmount_zero_decimals BN_toString_nat digitsVal_natToString)
next
  case False
  then have dpos: "0 < d" by simp
  define raw where "raw = padStart (natToString m) (d + 1)"
  define w where "w = take (length raw - d) raw"
  define f where "f = drop (length raw - d) raw"
  define fr where "fr = stripTrailingZeros f"
  have raw_digits: "allDigits raw"
    by (simp add: raw_def allDigits_padStart allDigits_natToString)
  have raw_len: "d + 1 \<le> length raw"
    by (simp add: raw_def length_padStart)
  have raw_val: "digitsVal raw = m"
    by (simp add: raw_def digitsVal_padStart digitsVal_natToString)
  have raw_split: "raw = w @ f" by (simp add: w_def f_def)
  have w_ne: "w \<noteq> []" using raw_len by (auto simp: w_def)
  have f_len: "length f = d" using raw_len by (simp add: f_def)
  have wd: "allDigits w" by (simp add: w_def allDigits_take raw_digits)
  have fd: "allDigits f" by (simp add: f_def allDigits_drop raw_digits)
  have frd: "allDigits fr" by (simp add: fr_def allDigits_stripTrailingZeros fd)
  have val: "digitsVal w * 10 ^ d + digitsVal f = m"
    using raw_val by (simp add: raw_split digitsVal_append f_len)
  have fmt: "formatTokenAmount (int m) d = (if fr = [] then w else w @ CHR ''.'' # fr)"
    unfolding fr_def f_def w_def raw_def
    by (simp add: formatTokenAmount_pos_decimals [OF dpos] BN_toString_nat Let_def)
  have pad: "padEnd (take d fr) d = f"
    unfolding fr_def by (rule padEnd_stripTrailingZeros [OF f_len])
  show ?thesis
  proof (cases "fr = []")
    case True
    then have "f = padEnd [] d" using pad by simp
    then have "digitsVal f = 0" by (simp add: digitsVal_padEnd digitsVal_Nil)
    then show ?thesis
      using True val by (simp add: fmt uiAmountToBN_integer [OF wd w_ne])
  next
    case False
    then show ?thesis
      using val by (simp add: fmt uiAmountToBN_decimal [OF wd frd] pad)
  qed
qed

section \<open>Round trip of the amount converter\<close>

text \<open>
  Claim C1.  For every non-negative integer \<open>n\<close> and every number of decimal places
  \<open>d\<close>, formatting \<open>n\<close> with \<^verbatim>\<open>formatTokenAmount\<close> and parsing the string back with
  \<^verbatim>\<open>uiAmountToBN\<close> returns exactly \<open>n\<close>; the parse does not fail.
\<close>

theorem roundtrip_exact:
  "0 \<le> n \<Longrightarrow> uiAmountToBN (formatTokenAmount n d) d = Inr (BN n)"
  using roundtrip_nat [of "nat n" d] by simp

theorem roundtrip_exact_witness:
  "(0::int) \<le> 1234567 \<and> uiAmountToBN (formatTokenAmount 1234567 6) 6 = Inr (BN 1234567)"
  using roundtrip_exact [of 1234567 6] by simp

section \<open>Truncation of the fractional part\<close>

lemma digitValue_le9: "isDigit c \<Longrightarrow> digitValue c \<le> 9"
  unfolding isDigit_def digitValue_def by linarith

lemma digitsVal_lt: "allDigits s \<Longrightarrow> digitsVal s < 10 ^ length s"
proof (induction s rule: rev_induct)
  case Nil
  show ?case by (simp add: digitsVal_Nil)
next
  case (snoc c s)
  then have "digitsVal s < 10 ^ length s" "digitValue c \<le> 9"
    by (simp_all add: allDigits_def digitValue_le9)
  then have "digitsVal s * 10 + digitValue c < 10 ^ length s * 10"
    by linarith
  then show ?case
    by (simp add: digitsVal_append digitsVal_Cons digitsVal_Nil)
qed

lemma digitsVal_truncated:
  assumes "allDigits f"
  shows "digitsVal (padEnd (take d f) d) = (digitsVal f * 10 ^ d) div 10 ^ length f"
proof (cases "length f \<le> d")
  case True
  then have "(10::nat) ^ d = 10 ^ (d - length f) * 10 ^ length f"
    by (simp add: power_add [symmetric])
  then have "(digitsVal f * 10 ^ d) div 10 ^ length f = digitsVal f * 10 ^ (d - length f)"
    by simp
  then show ?thesis
    using True by (simp add: digitsVal_padEnd)
next
  case False
  then have len: "d < length f" by simp
  define a where "a = take d f"
  define b where "b = drop d f"
  have f: "f = a @ b" by (simp add: a_def b_def)
  have la: "length a = d" using len by (simp add: a_def)
  have lb: "length b = length f - d" by (simp add: b_def)
  have "allDigits b" by (simp add: b_def allDigits_drop assms)
  then have blt: "digitsVal b < 10 ^ (length f - d)"
    using digitsVal_lt [of b] by (simp add: lb)
  have F: "digitsVal f = digitsVal a * 10 ^ (length f - d) + digitsVal b"
    using digitsVal_append [of a b] by (simp add: f [symmetric] lb)
  have p: "(10::nat) ^ length f = 10 ^ (length f - d) * 10 ^ d"
    using len by (simp add: power_add [symmetric])
  have "(digitsVal f * 10 ^ d) div 10 ^ length f = digitsVal f div 10 ^ (length f - d)"
    by (simp add: p)
  also have "\<dots> = digitsVal a"
    using blt by (simp add: F)
  finally show ?thesis
    by (simp add: a_def [symmetric] padEnd_def la)
qed

lemma scaled_exactValue:
  "exactValue w f * 10 ^ d =
     of_nat ((digitsVal w * 10 ^ length f + digitsVal f) * 10 ^ d) / of_nat (10 ^ length f)"
  by (simp add: exactValue_def field_simps)

lemma floor_scaled_exactValue:
  assumes "allDigits f"
  shows "\<lfloor>exactValue w f * 10 ^ d\<rfloor> = int (digitsVal w * 10 ^ d + digitsVal (padEnd (take d f) d))"
proof -
  have "\<lfloor>exactValue w f * 10 ^ d\<rfloor>
          = int (((digitsVal w * 10 ^ length f + digitsVal f) * 10 ^ d) div 10 ^ length f)"
    unfolding scaled_exactValue by (rule floor_divide_of_nat_eq)
  also have "((digitsVal w * 10 ^ length f + digitsVal f) * 10 ^ d) div 10 ^ length f
          = (digitsVal w * 10 ^ d * 10 ^ length f + digitsVal f * 10 ^ d) div 10 ^ length f"
    by (simp add: algebra_simps)
  also have "\<dots> = digitsVal w * 10 ^ d + (digitsVal f * 10 ^ d) div 10 ^ length f"
    by simp
  finally show ?thesis
    by (simp add: digitsVal_truncated [OF assms])
qed

text \<open>
  Claim C4.  For an input \<open>w.f\<close> whose whole part \<open>w\<close> and fractional part \<open>f\<close> are
  strings of decimal digits, and every number of decimal places \<open>d\<close>, \<^verbatim>\<open>uiAmountToBN\<close>
  returns the number denoted by the digits of \<open>w\<close> followed by the first \<open>d\<close> digits of
  \<open>f\<close>, padded on the right with zeros to \<open>d\<close> digits.  This number is the exact value of
  the input times \<open>10 ^ d\<close> rounded down (truncated, never rounded up), so it is never
  larger than the exact value of the input scaled by \<open>10 ^ d\<close>.
\<close>

theorem uiAmountToBN_truncates:
  assumes "allDigits w" "allDigits f"
  shows "uiAmountToBN (w @ ''.'' @ f) d
           = Inr (BN (int (digitsVal (w @ padEnd (substring0 f d) d))))
       \<and> int (digitsVal (w @ padEnd (substring0 f d) d)) = \<lfloor>exactValue w f * 10 ^ d\<rfloor>
       \<and> of_nat (digitsVal (w @ padEnd (substring0 f d) d)) \<le> exactValue w f * 10 ^ d"
proof -
  let ?n = "digitsVal (w @ padEnd (substring0 f d) d)"
  have len: "length (padEnd (take d f) d) = d" by (simp add: padEnd_def)
  have n: "?n = digitsVal w * 10 ^ d + digitsVal (padEnd (take d f) d)"
    by (simp add: substring0_def digitsVal_append len)
  have a: "uiAmountToBN (w @ ''.'' @ f) d = Inr (BN (int ?n))"
    using uiAmountToBN_decimal [OF assms, of d] by (simp add: n)
  have b: "int ?n = \<lfloor>exactValue w f * 10 ^ d\<rfloor>"
    by (simp only: n floor_scaled_exactValue [OF assms(2)])
  have "of_int \<lfloor>exactValue w f * 10 ^ d\<rfloor> \<le> exactValue w f * 10 ^ d"
    by (rule of_int_floor_le)
  then have c: "of_nat ?n \<le> exactValue w f * 10 ^ d"
    by (simp add: b [symmetric])
  show ?thesis using a b c by blast
qed

theorem uiAmountToBN_truncates_witness:
  "allDigits ''12'' \<and> allDigits ''3459''
     \<and> uiAmountToBN ''12.3459'' 2 = Inr (BN 1234)
     \<and> (1234::int) = \<lfloor>exactValue ''12'' ''3459'' * 10 ^ 2\<rfloor>
     \<and> (1234::rat) \<le> exactValue ''12'' ''3459'' * 10 ^ 2"
proof -
  have w: "allDigits ''12''" by (simp add: allDigits_def isDigit_def)
  have f: "allDigits ''3459''" by (simp add: allDigits_def isDigit_def)
  have v: "digitsVal (''12'' @ padEnd (substring0 ''3459'' 2) 2) = 1234"
    by (simp add: digitsVal_def digitValue_def padEnd_def substring0_def)
  have t: "uiAmountToBN (''12'' @ ''.'' @ ''3459'') 2 = Inr (BN (int 1234))
       \<and> int 1234 = \<lfloor>exactValue ''12'' ''3459'' * 10 ^ 2\<rfloor>
       \<and> of_nat 1234 \<le> exactValue ''12'' ''3459'' * 10 ^ 2"
    using uiAmountToBN_truncates [OF w f, of 2] unfolding v .
  have a: "uiAmountToBN ''12.3459'' 2 = Inr (BN 1234)"
    using t by simp
  have b: "(1234::int) = \<lfloor>exactValue ''12'' ''3459'' * 10 ^ 2\<rfloor>"
    using t by (metis of_nat_numeral)
  have c: "(1234::rat) \<le> exactValue ''12'' ''3459'' * 10 ^ 2"
    using t by (metis of_nat_numeral)
  show ?thesis using w f a b c by blast
qed

section \<open>The formatting contract\<close>

lemma formatTokenAmount_refines: "formatTokenAmount n d = toDecimalString n d"
proof (cases "d = 0")
  case True
  then show ?thesis by (simp add: formatTokenAmount_def toDecimalString_def)
next
  case False
  then have "0 < d" by simp
  from formatTokenAmount_pos_decimals [OF this, of n] show ?thesis
    using False by (simp add: toDecimalString_def padStart_def Let_def)
qed

lemma no_dot_natToString: "CHR ''.'' \<notin> set (natToString m)"
  by (rule allDigits_no_dot [OF allDigits_natToString])

lemma no_dot_BN_toString: "CHR ''.'' \<notin> set (BN_toString n)"
  by (simp add: BN_toString_def no_dot_natToString)

lemma no_dot_padStart: "CHR ''.'' \<notin> set s \<Longrightarrow> CHR ''.'' \<notin> set (padStart s k)"
  by (auto simp: padStart_def)

lemma wholePart_no_dot: "CHR ''.'' \<notin> set w \<Longrightarrow> wholePart w = w"
  by (induction w) (auto simp: wholePart_def)

lemma fractionPart_no_dot: "CHR ''.'' \<notin> set w \<Longrightarrow> fractionPart w = []"
  by (induction w) (auto simp: fractionPart_def)

lemma wholePart_dot: "CHR ''.'' \<notin> set w \<Longrightarrow> wholePart (w @ CHR ''.'' # f) = w"
  by (induction w) (auto simp: wholePart_def)

lemma fractionPart_dot: "CHR ''.'' \<notin> set w \<Longrightarrow> fractionPart (w @ CHR ''.'' # f) = f"
  by (induction w) (auto simp: fractionPart_def)

lemma fraction_length_bound: "length (fractionPart (formatTokenAmount n d)) \<le> d"
proof (cases "d = 0")
  case True
  then show ?thesis
    by (simp add: formatTokenAmount_zero_decimals fractionPart_no_dot no_dot_BN_toString)
next
  case False
  then have dpos: "0 < d" by simp
  define raw where "raw = padStart (BN_toString n) (d + 1)"
  define w where "w = take (length raw - d) raw"
  define fr where "fr = stripTrailingZeros (drop (length raw - d) raw)"
  have "CHR ''.'' \<notin> set raw"
    by (simp add: raw_def no_dot_padStart no_dot_BN_toString)
  then have nd: "CHR ''.'' \<notin> set w"
    by (auto simp: w_def dest: in_set_takeD)
  have "length fr \<le> length (drop (length raw - d) raw)"
    unfolding fr_def by (rule length_stripTrailingZeros)
  then have len: "length fr \<le> d" by simp
  have fmt: "formatTokenAmount n d = (if fr = [] then w else w @ CHR ''.'' # fr)"
    unfolding fr_def w_def raw_def
    by (simp add: formatTokenAmount_pos_decimals [OF dpos] Let_def)
  show ?thesis
    using len nd by (simp add: fmt fractionPart_no_dot fractionPart_dot)
qed

lemma format_value:
  "digitsVal (wholePart (formatTokenAmount (int m) d)) = m div 10 ^ d \<and>
   digitsVal (padEnd (fractionPart (formatTokenAmount (int m) d)) d) = m mod 10 ^ d"
proof (cases "d = 0")
  case True
  then show ?thesis
    by (simp add: formatTokenAmount_zero_decimals BN_toString_nat wholePart_no_dot
          fractionPart_no_dot no_dot_natToString digitsVal_natToString padEnd_def digitsVal_Nil)
next
  case False
  then have dpos: "0 < d" by simp
  define raw where "raw = padStart (natToString m) (d + 1)"
  define w where "w = take (length raw - d) raw"
  define f where "f = drop (length raw - d) raw"
  define fr where "fr = stripTrailingZeros f"
  have raw_digits: "allDigits raw"
    by (simp add: raw_def allDigits_padStart allDigits_natToString)
  have raw_len: "d + 1 \<le> length raw"
    by (simp add: raw_def length_padStart)
  have raw_val: "digitsVal raw = m"
    by (simp add: raw_def digitsVal_padStart digitsVal_natToString)
  have raw_split: "raw = w @ f" by (simp add: w_def f_def)
  have f_len: "length f = d" using raw_len by (simp add: f_def)
  have wd: "allDigits w" by (simp add: w_def allDigits_take raw_digits)
  have fd: "allDigits f" by (simp add: f_def allDigits_drop raw_digits)
  have val: "digitsVal w * 10 ^ d + digitsVal f = m"
    using raw_val by (simp add: raw_split digitsVal_append f_len)
  have flt: "digitsVal f < 10 ^ d"
    using digitsVal_lt [OF fd] by (simp add: f_len)
  have fmt: "formatTokenAmount (int m) d = (if fr = [] then w else w @ CHR ''.'' # fr)"
    unfolding fr_def f_def w_def raw_def
    by (simp add: formatTokenAmount_pos_decimals [OF dpos] BN_toString_nat Let_def)
  have pad: "padEnd fr d = f"
    using padEnd_stripTrailingZeros [OF f_len] length_stripTrailingZeros [of f]
    by (simp add: fr_def f_len)
  have nd: "CHR ''.'' \<notin> set w" by (rule allDigits_no_dot [OF wd])
  have wp: "wholePart (formatTokenAmount (int m) d) = w"
    using nd by (simp add: fmt wholePart_no_dot wholePart_dot)
  have fp: "fractionPart (formatTokenAmount (int m) d) = fr"
    using nd by (simp add: fmt fractionPart_no_dot fractionPart_dot)
  have "m div 10 ^ d = digitsVal w" "m mod 10 ^ d = digitsVal f"
    using flt by (simp_all add: val [symmetric])
  then show ?thesis
    by (simp add: wp fp pad)
qed


lemma natToString_digit: "m < 10 \<Longrightarrow> natToString m = [digitChar m]"
  by (subst natToString.simps) simp

lemma natToString_step:
  "10 \<le> m \<Longrightarrow> natToString m = natToString (m div 10) @ [digitChar (m mod 10)]"
  by (subst natToString.simps) simp

lemma digitChar_numerals:
  "digitChar 0 = CHR ''0''" "digitChar 1 = CHR ''1''" "digitChar 2 = CHR ''2''"
  "digitChar 3 = CHR ''3''" "digitChar 4 = CHR ''4''" "digitChar 5 = CHR ''5''"
  "digitChar 6 = CHR ''6''" "digitChar 7 = CHR ''7''" "digitChar 8 = CHR ''8''"
  "digitChar 9 = CHR ''9''" "digitChar (Suc 0) = CHR ''1''"
  by (simp_all add: digitChar_def char_of_def bit_0)

lemmas natToString_eval = natToString_step natToString_digit digitChar_numerals

lemmas formatTokenAmount_eval =
  formatTokenAmount_def BN_toString_def padStart_def sliceUntilLast_def
  sliceLast_def orZero_def stripTrailingZeros_def isZeroChar_def

lemma format_example_1: "formatTokenAmount 100000 6 = ''0.1''"
proof -
  have "natToString 100000 = ''100000''" by (simp add: natToString_eval)
  then show ?thesis by (simp add: formatTokenAmount_eval)
qed

lemma format_example_2: "formatTokenAmount 1000000 6 = ''1''"
proof -
  have "natToString 1000000 = ''1000000''" by (simp add: natToString_eval)
  then show ?thesis by (simp add: formatTokenAmount_eval)
qed

text \<open>
  Claim C9.  \<^verbatim>\<open>formatTokenAmount\<close> satisfies the formatting contract of the
  specification (\<open>toDecimalString\<close>): verbatim for \<open>d = 0\<close>, otherwise left-padded to at
  least \<open>d + 1\<close> digits, split into whole and fraction, trailing zeros of the fraction
  stripped and an empty fraction omitted.  It prints 100000 with 6 places as \<^verbatim>\<open>0.1\<close> and
  1000000 with 6 places as \<^verbatim>\<open>1\<close>.  For every \<open>n\<close> and \<open>d\<close> the fractional part of the
  output has at most \<open>d\<close> digits, and for \<open>n \<ge> 0\<close> the whole part denotes
  \<open>n div 10 ^ d\<close> and the fraction, padded back to \<open>d\<close> digits, denotes \<open>n mod 10 ^ d\<close>.
\<close>

theorem formatTokenAmount_contract:
  "formatTokenAmount n d = toDecimalString n d
   \<and> formatTokenAmount 100000 6 = ''0.1''
   \<and> formatTokenAmount 1000000 6 = ''1''
   \<and> length (fractionPart (formatTokenAmount n d)) \<le> d
   \<and> (0 \<le> n \<longrightarrow>
        int (digitsVal (wholePart (formatTokenAmount n d))) = n div 10 ^ d \<and>
        int (digitsVal (padEnd (fractionPart (formatTokenAmount n d)) d)) = n mod 10 ^ d)"
proof -
  have c: "0 \<le> n \<longrightarrow>
        int (digitsVal (wholePart (formatTokenAmount n d))) = n div 10 ^ d \<and>
        int (digitsVal (padEnd (fractionPart (formatTokenAmount n d)) d)) = n mod 10 ^ d"
  proof
    assume "0 \<le> n"
    then obtain m where n: "n = int m" using nonneg_int_cases by blast
    show "int (digitsVal (wholePart (formatTokenAmount n d))) = n div 10 ^ d \<and>
        int (digitsVal (padEnd (fractionPart (formatTokenAmount n d)) d)) = n mod 10 ^ d"
      using format_value [of m d] by (simp add: n zdiv_int zmod_int)
  qed
  show ?thesis
    using formatTokenAmount_refines [of n d] format_example_1 format_example_2
      fraction_length_bound [of n d] c by blast
qed

theorem formatTokenAmount_contract_witness:
  "formatTokenAmount 1234500 6 = toDecimalString 1234500 6
   \<and> formatTokenAmount 1234500 6 = ''1.2345''
   \<and> length (fractionPart (formatTokenAmount 1234500 6)) \<le> 6
   \<and> (0::int) \<le> 1234500
   \<and> int (digitsVal (wholePart (formatTokenAmount 1234500 6))) = 1234500 div 10 ^ 6
   \<and> int (digitsVal (padEnd (fractionPart (formatTokenAmount 1234500 6)) 6)) = 1234500 mod 10 ^ 6"
proof -
  have "natToString 1234500 = ''1234500''" by (simp add: natToString_eval)
  then have v: "formatTokenAmount 1234500 6 = ''1.2345''"
    by (simp add: formatTokenAmount_eval)
  have p: "(0::int) \<le> 1234500" by simp
  show ?thesis
    using formatTokenAmount_contract [of 1234500 6] v p by blast
qed

section \<open>Inputs with more than one decimal point\<close>

lemma dropWhile_ws_point:
  "dropWhile isWhiteSpace (a @ CHR ''.'' # r) = dropWhile isWhiteSpace a @ CHR ''.'' # r"
  by (induction a) (auto simp: dot_not_ws)

lemma startsWithMinus_prefix:
  "startsWithMinus (x @ CHR ''.'' # y) = startsWithMinus (x @ ''.'')"
  by (cases x) (simp_all add: startsWithMinus_def)

lemma trim_two_points:
  "trim (a @ CHR ''.'' # b @ CHR ''.'' # r)
     = dropWhile isWhiteSpace a @ CHR ''.'' # b @ CHR ''.'' # rev (dropWhile isWhiteSpace (rev r))"
proof -
  have 1: "dropWhile isWhiteSpace (a @ CHR ''.'' # b @ CHR ''.'' # r)
             = dropWhile isWhiteSpace a @ CHR ''.'' # b @ CHR ''.'' # r"
    by (rule dropWhile_ws_point)
  have 2: "rev (dropWhile isWhiteSpace a @ CHR ''.'' # b @ CHR ''.'' # r)
             = rev r @ CHR ''.'' # (rev b @ CHR ''.'' # rev (dropWhile isWhiteSpace a))"
    by simp
  have 3: "dropWhile isWhiteSpace (rev r @ CHR ''.'' # (rev b @ CHR ''.'' # rev (dropWhile isWhiteSpace a)))
             = dropWhile isWhiteSpace (rev r) @ CHR ''.'' # (rev b @ CHR ''.'' # rev (dropWhile isWhiteSpace a))"
    by (rule dropWhile_ws_point)
  show ?thesis
    unfolding trim_def 1 2 3 by simp
qed

lemma trim_one_point:
  assumes "b = [] \<or> \<not> isWhiteSpace (last b)"
  shows "trim (a @ CHR ''.'' # b) = dropWhile isWhiteSpace a @ CHR ''.'' # b"
proof -
  have 1: "dropWhile isWhiteSpace (a @ CHR ''.'' # b) = dropWhile isWhiteSpace a @ CHR ''.'' # b"
    by (rule dropWhile_ws_point)
  have 2: "dropWhile isWhiteSpace (rev (dropWhile isWhiteSpace a @ CHR ''.'' # b))
             = rev (dropWhile isWhiteSpace a @ CHR ''.'' # b)"
  proof (cases "b = []")
    case True
    then show ?thesis by (simp add: dot_not_ws)
  next
    case False
    with assms have nw: "\<not> isWhiteSpace (last b)" by simp
    from False obtain c b' where b: "b = b' @ [c]" by (metis rev_exhaust)
    with nw have "\<not> isWhiteSpace c" by simp
    then show ?thesis by (simp add: b)
  qed
  show ?thesis
    unfolding trim_def 1 2 by simp
qed

lemma set_dropWhile_subset: "set (dropWhile P xs) \<subseteq> set xs"
  by (auto dest: set_dropWhileD)

lemma uiAmountToBN_two_points:
  assumes "CHR ''.'' \<notin> set a" "CHR ''.'' \<notin> set b"
  shows "uiAmountToBN (a @ CHR ''.'' # b @ CHR ''.'' # r) d =
           (if startsWithMinus (dropWhile isWhiteSpace a @ ''.'') then Inr (BN 0)
            else fromSegments (dropWhile isWhiteSpace a) b d)"
proof -
  let ?a = "dropWhile isWhiteSpace a"
  let ?r = "rev (dropWhile isWhiteSpace (rev r))"
  have t: "trim (a @ CHR ''.'' # b @ CHR ''.'' # r) = ?a @ CHR ''.'' # b @ CHR ''.'' # ?r"
    by (rule trim_two_points)
  have na: "CHR ''.'' \<notin> set ?a"
    using assms(1) set_dropWhile_subset [of isWhiteSpace a] by blast
  have sp: "split (CHR ''.'') (?a @ CHR ''.'' # b @ CHR ''.'' # ?r) = ?a # b # split (CHR ''.'') ?r"
    using na assms(2) by (simp add: split_append_sep)
  have m: "startsWithMinus (?a @ CHR ''.'' # b @ CHR ''.'' # ?r) = startsWithMinus (?a @ ''.'')"
    by (rule startsWithMinus_prefix)
  show ?thesis
    by (simp add: uiAmountToBN_def fromSegments_def Let_def t sp m
          destructWhole_def destructFraction_def)
qed

lemma uiAmountToBN_one_point:
  assumes "CHR ''.'' \<notin> set a" "CHR ''.'' \<notin> set b" "b = [] \<or> \<not> isWhiteSpace (last b)"
  shows "uiAmountToBN (a @ CHR ''.'' # b) d =
           (if startsWithMinus (dropWhile isWhiteSpace a @ ''.'') then Inr (BN 0)
            else fromSegments (dropWhile isWhiteSpace a) b d)"
proof -
  let ?a = "dropWhile isWhiteSpace a"
  have t: "trim (a @ CHR ''.'' # b) = ?a @ CHR ''.'' # b"
    by (rule trim_one_point [OF assms(3)])
  have na: "CHR ''.'' \<notin> set ?a"
    using assms(1) set_dropWhile_subset [of isWhiteSpace a] by blast
  have sp: "split (CHR ''.'') (?a @ CHR ''.'' # b) = [?a, b]"
    using na assms(2) by (simp add: split_append_sep split_no_sep)
  have m: "startsWithMinus (?a @ CHR ''.'' # b) = startsWithMinus (?a @ ''.'')"
    by (rule startsWithMinus_prefix)
  show ?thesis
    by (simp add: uiAmountToBN_def fromSegments_def Let_def t sp m
          destructWhole_def destructFraction_def)
qed

lemma allDigits_literals:
  "allDigits ''1''" "allDigits ''2''" "allDigits ''3''" "allDigits ''12''"
  by (simp_all add: allDigits_def isDigit_def)

lemma example_three_segments:
  "uiAmountToBN ''1.2.3'' d = uiAmountToBN ''1.2'' d"
proof -
  have n: "CHR ''.'' \<notin> set ''1''" "CHR ''.'' \<notin> set ''2''" by simp_all
  have l: "''2'' = [] \<or> \<not> isWhiteSpace (last ''2'')" by (simp add: isWhiteSpace_def)
  have "uiAmountToBN (''1'' @ CHR ''.'' # ''2'' @ CHR ''.'' # ''3'') d
          = uiAmountToBN (''1'' @ CHR ''.'' # ''2'') d"
    using uiAmountToBN_two_points [OF n, of "''3''" d] uiAmountToBN_one_point [OF n l, of d]
    by simp
  then show ?thesis by simp
qed

lemma example_three_segments_value:
  "uiAmountToBN ''1.2.3'' d = Inr (BN (int ((12 * 10 ^ d) div 10)))"
proof -
  have "uiAmountToBN (''1'' @ CHR ''.'' # ''2'') d
          = Inr (BN (int (digitsVal ''1'' * 10 ^ d + digitsVal (padEnd (take d ''2'') d))))"
    by (rule uiAmountToBN_decimal) (simp_all add: allDigits_literals)
  moreover have "digitsVal ''1'' = 1"
    by (simp add: digitsVal_def digitValue_def)
  moreover have "10 ^ d + digitsVal (padEnd (take d ''2'') d) = (12 * 10 ^ d) div 10"
  proof (cases d)
    case 0
    then show ?thesis by (simp add: padEnd_def digitsVal_Nil)
  next
    case (Suc k)
    have "digitsVal ''2'' = 2" by (simp add: digitsVal_def digitValue_def)
    then show ?thesis
      using Suc by (simp add: digitsVal_padEnd)
  qed
  ultimately show ?thesis
    using example_three_segments [of d] by simp
qed

text \<open>
  Claim C10.  On an input with more than one decimal point \<^verbatim>\<open>uiAmountToBN\<close> reads the
  first two segments only: whatever follows the second point has no effect on the
  result, and the result is that of the input cut before the second point (when the
  second segment does not end in white space, which \<^verbatim>\<open>trim\<close> would remove from the
  shorter input).  In particular \<^verbatim>\<open>uiAmountToBN("1.2.3", d)\<close> equals
  \<^verbatim>\<open>uiAmountToBN("1.2", d)\<close> for every \<open>d\<close>; it is a positive integer, neither an
  error nor zero.
\<close>

theorem segments_after_second_ignored:
  assumes "CHR ''.'' \<notin> set a" "CHR ''.'' \<notin> set b"
  shows "uiAmountToBN (a @ ''.'' @ b @ ''.'' @ r) d = uiAmountToBN (a @ ''.'' @ b @ ''.'' @ r') d
       \<and> (b = [] \<or> \<not> isWhiteSpace (last b) \<longrightarrow>
            uiAmountToBN (a @ ''.'' @ b @ ''.'' @ r) d = uiAmountToBN (a @ ''.'' @ b) d)
       \<and> uiAmountToBN ''1.2.3'' d = uiAmountToBN ''1.2'' d
       \<and> uiAmountToBN ''1.2.3'' d = Inr (BN (int ((12 * 10 ^ d) div 10)))
       \<and> 0 < (12 * 10 ^ d) div (10::nat)"
proof -
  have 1: "uiAmountToBN (a @ ''.'' @ b @ ''.'' @ r) d = uiAmountToBN (a @ ''.'' @ b @ ''.'' @ r') d"
    using uiAmountToBN_two_points [OF assms, of r d] uiAmountToBN_two_points [OF assms, of r' d]
    by simp
  have 2: "b = [] \<or> \<not> isWhiteSpace (last b) \<longrightarrow>
            uiAmountToBN (a @ ''.'' @ b @ ''.'' @ r) d = uiAmountToBN (a @ ''.'' @ b) d"
  proof
    assume l: "b = [] \<or> \<not> isWhiteSpace (last b)"
    show "uiAmountToBN (a @ ''.'' @ b @ ''.'' @ r) d = uiAmountToBN (a @ ''.'' @ b) d"
      using uiAmountToBN_two_points [OF assms, of r d] uiAmountToBN_one_point [OF assms l, of d]
      by simp
  qed
  have "(12::nat) \<le> 12 * 10 ^ d" by simp
  then have "(12::nat) div 10 \<le> (12 * 10 ^ d) div 10" by (rule div_le_mono)
  then have 3: "0 < (12 * 10 ^ d) div (10::nat)" by simp
  show ?thesis
    using 1 2 3 example_three_segments [of d] example_three_segments_value [of d] by blast
qed

theorem segments_after_second_ignored_witness:
  "CHR ''.'' \<notin> set ''07'' \<and> CHR ''.'' \<notin> set ''25''
     \<and> uiAmountToBN ''07.25.9.9'' 3 = uiAmountToBN ''07.25.8'' 3
     \<and> uiAmountToBN ''07.25.9.9'' 3 = uiAmountToBN ''07.25'' 3
     \<and> uiAmountToBN ''1.2.3'' 3 = Inr (BN 1200)"
proof -
  have n: "CHR ''.'' \<notin> set ''07''" "CHR ''.'' \<notin> set ''25''" by simp_all
  have l: "''25'' = [] \<or> \<not> isWhiteSpace (last ''25'')" by (simp add: isWhiteSpace_def)
  have w5: "\<not> isWhiteSpace (CHR ''5'')" by (simp add: isWhiteSpace_def)
  note t = segments_after_second_ignored [OF n, of "''9.9''" 3 "''8''", simplified]
  show ?thesis
    using t w5 n by blast
qed

section \<open>Blank and negative inputs\<close>

lemma trim_all_white:
  assumes "list_all isWhiteSpace s"
  shows "trim s = []"
proof -
  have d: "dropWhile isWhiteSpace s = []"
    using assms by (induction s) simp_all
  show ?thesis unfolding trim_def d by simp
qed

lemma uiAmountToBN_blank: "list_all isWhiteSpace s \<Longrightarrow> uiAmountToBN s d = Inr (BN 0)"
  by (simp add: uiAmountToBN_def trim_all_white)

lemma minus_not_ws: "\<not> isWhiteSpace (CHR ''-'')"
  by (simp add: isWhiteSpace_def)

lemma trim_leading_minus:
  assumes "list_all isWhiteSpace ws"
  shows "trim (ws @ CHR ''-'' # r) = CHR ''-'' # rev (dropWhile isWhiteSpace (rev r))"
proof -
  have 1: "dropWhile isWhiteSpace (ws @ CHR ''-'' # r) = CHR ''-'' # r"
    using assms by (induction ws) (simp_all add: minus_not_ws)
  have 2: "dropWhile isWhiteSpace (rev r @ [CHR ''-'']) = dropWhile isWhiteSpace (rev r) @ [CHR ''-'']"
    by (induction "rev r" arbitrary: r) (auto simp: minus_not_ws dropWhile_append)
  show ?thesis
    unfolding trim_def 1 using 2 by simp
qed

lemma uiAmountToBN_negative:
  "list_all isWhiteSpace ws \<Longrightarrow> uiAmountToBN (ws @ CHR ''-'' # r) d = Inr (BN 0)"
  by (simp add: uiAmountToBN_def trim_leading_minus startsWithMinus_def)

lemma BN_of_string_no_minus:
  assumes "CHR ''-'' \<notin> set t" "BN_of_string t = Inr a"
  shows "\<not> BN_isNeg a \<and> (\<forall>n. a = BN n \<longrightarrow> 0 \<le> n)"
proof (cases "t = []")
  case True
  with assms(2) show ?thesis by (auto simp: BN_of_string_def)
next
  case False
  show ?thesis
  proof (cases "filter (\<lambda>c. \<not> isWhiteSpace c) t")
    case Nil
    with assms(2) False show ?thesis by (auto simp: BN_of_string_def)
  next
    case (Cons c cs)
    then have "c \<in> set (filter (\<lambda>c. \<not> isWhiteSpace c) t)" by simp
    then have "c \<in> set t" by simp
    with assms(1) have "c \<noteq> CHR ''-''" by auto
    with assms(2) Cons False show ?thesis
      by (auto simp: BN_of_string_def split: sum.splits)
  qed
qed

lemma set_trim: "set (trim s) \<subseteq> set s"
proof -
  have "set (trim s) = set (dropWhile isWhiteSpace (rev (dropWhile isWhiteSpace s)))"
    by (simp add: trim_def)
  also have "\<dots> \<subseteq> set (rev (dropWhile isWhiteSpace s))"
    by (rule set_dropWhile_subset)
  also have "\<dots> \<subseteq> set s"
    using set_dropWhile_subset [of isWhiteSpace s] by simp
  finally show ?thesis .
qed

lemma split_nonempty: "split sep s \<noteq> []"
  by (induction s) (auto split: list.splits)

lemma set_split_all: "\<forall>seg \<in> set (split sep s). set seg \<subseteq> set s"
proof (induction s)
  case Nil
  show ?case by simp
next
  case (Cons c cs)
  show ?case
  proof (cases "c = sep")
    case True
    then show ?thesis using Cons by auto
  next
    case False
    obtain x xs where sp: "split sep cs = x # xs"
      using split_nonempty [of sep cs] by (cases "split sep cs") auto
    have "set x \<subseteq> set cs" "\<forall>seg \<in> set xs. set seg \<subseteq> set cs"
      using Cons sp by simp_all
    then show ?thesis
      using False sp by auto
  qed
qed

lemma set_destructWhole: "set (destructWhole (split sep s)) \<subseteq> set s"
proof -
  obtain w ws where sp: "split sep s = w # ws"
    using split_nonempty [of sep s] by (cases "split sep s") auto
  then show ?thesis
    using set_split_all [of sep s] by (simp add: destructWhole_def)
qed

lemma set_destructFraction: "set (destructFraction (split sep s)) \<subseteq> set s"
proof -
  obtain w ws where sp: "split sep s = w # ws"
    using split_nonempty [of sep s] by (cases "split sep s") auto
  show ?thesis
  proof (cases ws)
    case Nil
    with sp show ?thesis by (simp add: destructFraction_def)
  next
    case (Cons f fs)
    with sp show ?thesis
      using set_split_all [of sep s] by (simp add: destructFraction_def)
  qed
qed

lemma set_stripZerosBeforeDigit: "set (stripZerosBeforeDigit s) \<subseteq> set s"
  by (induction s rule: stripZerosBeforeDigit.induct) auto

lemma no_minus_combined:
  assumes "CHR ''-'' \<notin> set w" "CHR ''-'' \<notin> set f"
  shows "CHR ''-'' \<notin> set (orZero (stripLeadingZeros
           (orZero (stripZerosBeforeDigit w) @ padEnd (substring0 f d) d)))"
proof -
  have 1: "CHR ''-'' \<notin> set (orZero (stripZerosBeforeDigit w))"
    using assms(1) set_stripZerosBeforeDigit [of w] by (auto simp: orZero_def)
  have 2: "CHR ''-'' \<notin> set (padEnd (substring0 f d) d)"
    using assms(2) by (auto simp: padEnd_def substring0_def dest: in_set_takeD)
  have "CHR ''-'' \<notin> set (stripLeadingZeros
           (orZero (stripZerosBeforeDigit w) @ padEnd (substring0 f d) d))"
    using 1 2 set_dropWhile_subset [of isZeroChar] by (fastforce simp: stripLeadingZeros_def)
  then show ?thesis by (auto simp: orZero_def)
qed

lemma uiAmountToBN_no_minus:
  assumes "CHR ''-'' \<notin> set s" "uiAmountToBN s d = Inr a"
  shows "\<not> BN_isNeg a \<and> (\<forall>n. a = BN n \<longrightarrow> 0 \<le> n)"
proof (cases "trim s = [] \<or> startsWithMinus (trim s)")
  case True
  with assms(2) have "a = BN 0"
    by (auto simp: uiAmountToBN_def Let_def split: if_splits)
  then show ?thesis by simp
next
  case False
  let ?t = "trim s"
  have nt: "CHR ''-'' \<notin> set ?t" using assms(1) set_trim [of s] by blast
  have w: "CHR ''-'' \<notin> set (destructWhole (split (CHR ''.'') ?t))"
    using nt set_destructWhole [of "CHR ''.''" ?t] by blast
  have f: "CHR ''-'' \<notin> set (destructFraction (split (CHR ''.'') ?t))"
    using nt set_destructFraction [of "CHR ''.''" ?t] by blast
  have "uiAmountToBN s d = fromSegments (destructWhole (split (CHR ''.'') ?t))
                        (destructFraction (split (CHR ''.'') ?t)) d"
    using False by (intro uiAmountToBN_segments) simp_all
  with assms(2) have "BN_of_string (orZero (stripLeadingZeros
           (orZero (stripZerosBeforeDigit (destructWhole (split (CHR ''.'') ?t)))
             @ padEnd (substring0 (destructFraction (split (CHR ''.'') ?t)) d) d))) = Inr a"
    by (simp add: fromSegments_def)
  then show ?thesis
    by (rule BN_of_string_no_minus [OF no_minus_combined [OF w f]])
qed

lemma negative_example: "uiAmountToBN ''0-5'' 0 = Inr (BN (- 5))"
  by (simp add: uiAmountToBN_def trim_def isWhiteSpace_def startsWithMinus_def
        destructWhole_def destructFraction_def orZero_def isDigit_def padEnd_def
        substring0_def stripLeadingZeros_def isZeroChar_def BN_of_string_def digitValue_def)

lemma digitless_example:
  "uiAmountToBN ''0. 5'' 1 = Inr (BNEmpty False) \<and> \<not> amountRejected (BNEmpty False)"
  by (simp add: uiAmountToBN_def trim_def isWhiteSpace_def startsWithMinus_def
        destructWhole_def destructFraction_def orZero_def isDigit_def padEnd_def
        substring0_def stripLeadingZeros_def isZeroChar_def BN_of_string_def amountRejected_def)

section \<open>Pool resolution\<close>

lemmas io_defs = returnIO_def throwIO_def bindIO_def emit_def liftIO_def getAccountInfo_def
  newPublicKey_def


lemma assertClmmPoolAccount_valid:
  "validPublicKey e poolId \<Longrightarrow>
   assertClmmPoolAccount e poolId w =
     ((case accounts w poolId of
         None \<Rightarrow> Inl PoolNotFound
       | Some i \<Rightarrow>
           if \<not> isClmmProgram e i then Inl WrongProgramOwner
           else if info_dataLength i < CLMM_POOL_ACCOUNT_SIZE e then Inl MalformedAccount
           else Inr poolId),
      w\<lparr>events := events w @ [GetAccountInfo poolId]\<rparr>)"
  by (simp add: assertClmmPoolAccount_def io_defs split: option.splits)

lemma isClmmProgram_iff:
  "isClmmProgram e i \<longleftrightarrow>
     info_owner i = CLMM_PROGRAM_ID e \<or> DEVNET_CLMM_PROGRAM_ID e = Some (info_owner i)"
  by (auto simp: isClmmProgram_def split: option.splits)

text \<open>
  On a devnet connection an account owned by the mainnet program identity passes the
  owner check, because the check accepts either identity whatever the network is.
\<close>

theorem devnet_accepts_mainnet_program_counterexample:
  "detectCluster devnetConnection = Devnet
   \<and> accounts exampleWorld ''Pool'' = Some \<lparr>info_owner = ''CAMM'', info_dataLength = 1544\<rparr>
   \<and> networkProgramId exampleEnv (detectCluster devnetConnection) \<noteq> Some ''CAMM''
   \<and> fst (assertClmmPoolAccount exampleEnv ''Pool'' exampleWorld) \<noteq> Inl WrongProgramOwner
   \<and> fst (assertClmmPoolAccount exampleEnv ''Pool'' exampleWorld) = Inr ''Pool''"
proof -
  have c: "detectCluster devnetConnection = Devnet"
    by (simp add: detectCluster_def devnetConnection_def)
  have v: "validPublicKey exampleEnv ''Pool''"
    by (simp add: exampleEnv_def)
  have r: "fst (assertClmmPoolAccount exampleEnv ''Pool'' exampleWorld) = Inr ''Pool''"
    by (simp add: assertClmmPoolAccount_valid [OF v] exampleWorld_def isClmmProgram_def
          CLMM_POOL_ACCOUNT_SIZE_def) (simp add: exampleEnv_def)
  have n: "networkProgramId exampleEnv Devnet \<noteq> Some ''CAMM''"
    by (simp add: networkProgramId_def exampleEnv_def)
  show ?thesis
    using c r n by (simp add: exampleWorld_def)
qed

text \<open>
  Claim C3, as amended.  For a well-formed address \<^verbatim>\<open>assertClmmPoolAccount\<close> fetches the
  account once and checks in order: it fails with \<open>PoolNotFound\<close> exactly when no account
  exists; with \<open>WrongProgramOwner\<close> exactly when the account exists and its owner is
  neither the mainnet nor the devnet program identity, whatever the current network;
  with \<open>MalformedAccount\<close> exactly when the owner is one of the two and the data is
  shorter than the struct span; and otherwise returns the address.  The three errors
  are distinct, and these four outcomes are the only ones.
\<close>

theorem assertClmmPoolAccount_checks:
  assumes "validPublicKey e poolId"
  shows "(fst (assertClmmPoolAccount e poolId w) = Inl PoolNotFound
            \<longleftrightarrow> accounts w poolId = None)
       \<and> (fst (assertClmmPoolAccount e poolId w) = Inl WrongProgramOwner
            \<longleftrightarrow> (\<exists>i. accounts w poolId = Some i
                  \<and> info_owner i \<noteq> CLMM_PROGRAM_ID e
                  \<and> DEVNET_CLMM_PROGRAM_ID e \<noteq> Some (info_owner i)))
       \<and> (fst (assertClmmPoolAccount e poolId w) = Inl MalformedAccount
            \<longleftrightarrow> (\<exists>i. accounts w poolId = Some i
                  \<and> (info_owner i = CLMM_PROGRAM_ID e \<or> DEVNET_CLMM_PROGRAM_ID e = Some (info_owner i))
                  \<and> info_dataLength i < CLMM_POOL_ACCOUNT_SIZE e))
       \<and> (fst (assertClmmPoolAccount e poolId w) = Inr poolId
            \<longleftrightarrow> (\<exists>i. accounts w poolId = Some i
                  \<and> (info_owner i = CLMM_PROGRAM_ID e \<or> DEVNET_CLMM_PROGRAM_ID e = Some (info_owner i))
                  \<and> CLMM_POOL_ACCOUNT_SIZE e \<le> info_dataLength i))
       \<and> fst (assertClmmPoolAccount e poolId w) \<in>
            {Inl PoolNotFound, Inl WrongProgramOwner, Inl MalformedAccount, Inr poolId}
       \<and> snd (assertClmmPoolAccount e poolId w) = w\<lparr>events := events w @ [GetAccountInfo poolId]\<rparr>"
  unfolding assertClmmPoolAccount_valid [OF assms]
  by (cases "accounts w poolId") (auto simp: isClmmProgram_iff)

theorem assertClmmPoolAccount_checks_witness:
  "validPublicKey exampleEnv ''Pool''
   \<and> fst (assertClmmPoolAccount exampleEnv ''Pool'' exampleWorld) = Inr ''Pool''
   \<and> fst (assertClmmPoolAccount exampleEnv ''None'' exampleWorld) = Inl PoolNotFound
   \<and> events (snd (assertClmmPoolAccount exampleEnv ''Pool'' exampleWorld)) = [GetAccountInfo ''Pool'']"
proof -
  have v: "validPublicKey exampleEnv ''Pool''" "validPublicKey exampleEnv ''None''"
    by (simp_all add: exampleEnv_def)
  have a: "accounts exampleWorld ''None'' = None"
    by (simp add: exampleWorld_def)
  have b: "\<exists>i. accounts exampleWorld ''Pool'' = Some i
                  \<and> (info_owner i = CLMM_PROGRAM_ID exampleEnv
                       \<or> DEVNET_CLMM_PROGRAM_ID exampleEnv = Some (info_owner i))
                  \<and> CLMM_POOL_ACCOUNT_SIZE exampleEnv \<le> info_dataLength i"
    by (simp add: exampleWorld_def exampleEnv_def CLMM_POOL_ACCOUNT_SIZE_def)
  have 1: "fst (assertClmmPoolAccount exampleEnv ''Pool'' exampleWorld) = Inr ''Pool''"
    using assertClmmPoolAccount_checks [OF v(1), of exampleWorld] b by blast
  have 2: "fst (assertClmmPoolAccount exampleEnv ''None'' exampleWorld) = Inl PoolNotFound"
    using assertClmmPoolAccount_checks [OF v(2), of exampleWorld] a by blast
  have 3: "events (snd (assertClmmPoolAccount exampleEnv ''Pool'' exampleWorld)) = [GetAccountInfo ''Pool'']"
    using assertClmmPoolAccount_checks [OF v(1), of exampleWorld] by (simp add: exampleWorld_def)
  show ?thesis using v 1 2 3 by blast
qed

section \<open>Signing capability\<close>

lemma signEach_success_iff:
  "signEach g txs acc = Inr ys \<longleftrightarrow>
     (\<exists>zs. ys = acc @ zs \<and> list_all2 (\<lambda>tx y. g tx = Inr y) txs zs)"
proof (induction txs arbitrary: acc)
  case Nil
  show ?case by auto
next
  case (Cons tx txs)
  show ?case
  proof (cases "g tx")
    case (Inl e)
    then show ?thesis by (auto simp: list_all2_Cons1)
  next
    case (Inr s)
    then show ?thesis
      by (auto simp: Cons.IH list_all2_Cons1)
  qed
qed

lemma signEach_first_failure:
  "list_all (\<lambda>tx. \<exists>y. g tx = Inr y) pre \<Longrightarrow> g tx = Inl err \<Longrightarrow>
     signEach g (pre @ tx # post) acc = Inl err"
  by (induction pre arbitrary: acc) auto

text \<open>
  Claim C8.  \<^verbatim>\<open>resolveSignAllTransactions\<close> returns the wallet's own batch signer when the
  wallet has one, whether or not it also has a single signer.  Otherwise, when the
  wallet has a single signer, it returns a signer that passes the transactions to it
  one at a time in order: it succeeds exactly with the list of the individually signed
  transactions, and it fails with the error of the first transaction the wallet refuses.
  When the wallet has neither capability it fails with \<open>WalletCannotSign\<close>.
\<close>

theorem resolveSignAllTransactions_preference:
  "(signAllTransactions wl = Some f \<longrightarrow> resolveSignAllTransactions wl = Inr f)
   \<and> (signAllTransactions wl = None \<and> signTransaction wl = Some g \<longrightarrow>
        (\<exists>h. resolveSignAllTransactions wl = Inr h
           \<and> (\<forall>txs ys. h txs = Inr ys \<longleftrightarrow> list_all2 (\<lambda>tx y. g tx = Inr y) txs ys)
           \<and> (\<forall>pre tx post err. list_all (\<lambda>t. \<exists>y. g t = Inr y) pre \<and> g tx = Inl err
                 \<longrightarrow> h (pre @ tx # post) = Inl err)))
   \<and> (signAllTransactions wl = None \<and> signTransaction wl = None \<longrightarrow>
        resolveSignAllTransactions wl = Inl WalletCannotSign)"
proof -
  have 1: "signAllTransactions wl = Some f \<longrightarrow> resolveSignAllTransactions wl = Inr f"
    by (simp add: resolveSignAllTransactions_def)
  have 2: "signAllTransactions wl = None \<and> signTransaction wl = Some g \<longrightarrow>
        (\<exists>h. resolveSignAllTransactions wl = Inr h
           \<and> (\<forall>txs ys. h txs = Inr ys \<longleftrightarrow> list_all2 (\<lambda>tx y. g tx = Inr y) txs ys)
           \<and> (\<forall>pre tx post err. list_all (\<lambda>t. \<exists>y. g t = Inr y) pre \<and> g tx = Inl err
                 \<longrightarrow> h (pre @ tx # post) = Inl err))"
  proof
    assume a: "signAllTransactions wl = None \<and> signTransaction wl = Some g"
    let ?h = "\<lambda>transactions. signEach g transactions []"
    have r: "resolveSignAllTransactions wl = Inr ?h"
      using a by (simp add: resolveSignAllTransactions_def)
    have s: "\<forall>txs ys. ?h txs = Inr ys \<longleftrightarrow> list_all2 (\<lambda>tx y. g tx = Inr y) txs ys"
      by (simp add: signEach_success_iff)
    have f: "\<forall>pre tx post err. list_all (\<lambda>t. \<exists>y. g t = Inr y) pre \<and> g tx = Inl err
                 \<longrightarrow> ?h (pre @ tx # post) = Inl err"
      by (simp add: signEach_first_failure)
    show "\<exists>h. resolveSignAllTransactions wl = Inr h
           \<and> (\<forall>txs ys. h txs = Inr ys \<longleftrightarrow> list_all2 (\<lambda>tx y. g tx = Inr y) txs ys)
           \<and> (\<forall>pre tx post err. list_all (\<lambda>t. \<exists>y. g t = Inr y) pre \<and> g tx = Inl err
                 \<longrightarrow> h (pre @ tx # post) = Inl err)"
      using r s f by blast
  qed
  have 3: "signAllTransactions wl = None \<and> signTransaction wl = None \<longrightarrow>
        resolveSignAllTransactions wl = Inl WalletCannotSign"
    by (simp add: resolveSignAllTransactions_def)
  show ?thesis using 1 2 3 by blast
qed


theorem resolveSignAllTransactions_preference_witness:
  "resolveSignAllTransactions exampleWallet = Inr exampleSignAll
   \<and> (case resolveSignAllTransactions (exampleWallet\<lparr>signAllTransactions := None\<rparr>) of
        Inl _ \<Rightarrow> False
      | Inr h \<Rightarrow> h [''a'', ''b''] = Inr [''S:a'', ''S:b''] \<and> h [''a'', ''bad'', ''c''] = Inl WalletCannotSign)
   \<and> resolveSignAllTransactions (exampleWallet\<lparr>signAllTransactions := None, signTransaction := None\<rparr>)
        = Inl WalletCannotSign"
proof -
  let ?w1 = "exampleWallet\<lparr>signAllTransactions := None\<rparr>"
  let ?w0 = "exampleWallet\<lparr>signAllTransactions := None, signTransaction := None\<rparr>"
  have 1: "resolveSignAllTransactions exampleWallet = Inr exampleSignAll"
    using resolveSignAllTransactions_preference [of exampleWallet exampleSignAll exampleSign]
    by (simp add: exampleWallet_def)
  have 3: "resolveSignAllTransactions ?w0 = Inl WalletCannotSign"
    using resolveSignAllTransactions_preference [of ?w0 exampleSignAll exampleSign]
    by (simp add: exampleWallet_def)
  have "signAllTransactions ?w1 = None \<and> signTransaction ?w1 = Some exampleSign"
    by (simp add: exampleWallet_def)
  then obtain h where h: "resolveSignAllTransactions ?w1 = Inr h"
      "\<forall>txs ys. h txs = Inr ys \<longleftrightarrow> list_all2 (\<lambda>tx y. exampleSign tx = Inr y) txs ys"
      "\<forall>pre tx post err. list_all (\<lambda>t. \<exists>y. exampleSign t = Inr y) pre \<and> exampleSign tx = Inl err
                 \<longrightarrow> h (pre @ tx # post) = Inl err"
    using resolveSignAllTransactions_preference [of ?w1 exampleSignAll exampleSign] by blast
  have a: "h [''a'', ''b''] = Inr [''S:a'', ''S:b'']"
    using h(2) by (simp add: exampleSign_def)
  have "list_all (\<lambda>t. \<exists>y. exampleSign t = Inr y) [''a''] \<and> exampleSign ''bad'' = Inl WalletCannotSign"
    by (simp add: exampleSign_def)
  then have "h ([''a''] @ ''bad'' # [''c'']) = Inl WalletCannotSign"
    using h(3) by blast
  then have b: "h [''a'', ''bad'', ''c''] = Inl WalletCannotSign" by simp
  show ?thesis
    using 1 3 a b by (simp add: h(1))
qed

section \<open>Provisioning of associated accounts\<close>











section \<open>Order of validation and network calls in the swap\<close>

lemma bindIO_Inr: "m w = (Inr x, w1) \<Longrightarrow> bindIO m f w = f x w1"
  by (simp add: bindIO_def)

lemma bindIO_Inl: "m w = (Inl err, w1) \<Longrightarrow> bindIO m f w = (Inl err, w1)"
  by (simp add: bindIO_def)







lemma performClmmSwap_after_fetch:
  assumes "publicKey wl \<noteq> None" "sendTransaction wl \<noteq> None"
      "validPublicKey e (p_tokenInMint p)" "validPublicKey e (p_tokenOutMint p)"
      "resolveAndProvision e conn wl (p_poolId p) (p_tokenInMint p) (p_tokenOutMint p) w
         = (Inr (ownerKey, pool, snap), w1)"
  shows "performClmmSwap e conn wl p w =
     (case validateSwap snap (p_tokenInMint p) (p_tokenOutMint p) (p_amount p) of
        Inl err \<Rightarrow> (Inl err, w1)
      | Inr (outputMintInfo, amountIn, tc, ci) \<Rightarrow>
          computeAndExecute e ownerKey snap (p_tokenInMint p) (p_tokenOutMint p)
            (case p_slippage p of Some s \<Rightarrow> s | None \<Rightarrow> 1 / 100)
            outputMintInfo amountIn tc ci w1)"
  using assms
  by (auto simp: performClmmSwap_def io_defs Let_def split: sum.splits prod.splits)

lemma validateSwap_rejects:
  assumes "findMint (poolInfo snap) inMint = Some inInfo"
      "findMint (poolInfo snap) outMint = Some outInfo"
      "uiAmountToBN amount (mint_decimals inInfo) = Inr a"
      "BN_isZero a \<or> BN_isNeg a"
  shows "validateSwap snap inMint outMint amount = Inl NonPositiveAmount"
  using assms by (simp add: validateSwap_def amountRejected_def)


lemmas swap_eval =
  performClmmSwap_def resolveAndProvision_def validateSwap_def computeAndExecute_def
  assertClmmPoolAccount_def createRaydiumContext_def resolveSignAllTransactions_def
  ensureAtaExists_def sendAndConfirm_def isClmmProgram_def CLMM_POOL_ACCOUNT_SIZE_def
  findMint_def io_defs Let_def detectCluster_def
  exampleEnv_def exampleWallet_def exampleWorld_def devnetConnection_def






section \<open>Blank, negative and malformed amounts\<close>

text \<open>
  The input \<^verbatim>\<open>"0-5"\<close> with no decimal places does not start with a minus sign, its
  leading zero is not followed by a digit and so survives the first replacement, and the
  second replacement then strips it: the library reads \<^verbatim>\<open>"-5"\<close>.
\<close>

theorem uiAmountToBN_negative_counterexample:
  "uiAmountToBN ''0-5'' 0 = Inr (BN (- 5)) \<and> BN_isNeg (BN (- 5)) \<and> \<not> (0::int) \<le> - 5"
  using negative_example by simp

text \<open>
  Claim C6, as amended.  \<^verbatim>\<open>uiAmountToBN\<close> returns zero on the empty string and on
  every input of white space only, and returns zero on every input whose first
  character after leading white space is a minus sign.  It returns a bare \<^verbatim>\<open>BN\<close> and no
  validity flag: it is the caller that rejects.  Once \<^verbatim>\<open>performClmmSwap\<close> has fetched the
  pool data and found both mints in the pool, it returns \<open>NonPositiveAmount\<close> whenever
  the converted amount is zero or negative, in particular for a blank amount and for
  an amount with a leading minus sign.  For every input string that contains no minus
  sign the value returned is not negative: if it is a number, the number is at least
  zero.
\<close>

theorem uiAmountToBN_rejects_blank_and_negative:
  "(list_all isWhiteSpace s \<longrightarrow> uiAmountToBN s d = Inr (BN 0))
   \<and> (list_all isWhiteSpace ws \<longrightarrow> uiAmountToBN (ws @ ''-'' @ r) d = Inr (BN 0))
   \<and> (CHR ''-'' \<notin> set s \<longrightarrow>
        (\<forall>a. uiAmountToBN s d = Inr a \<longrightarrow> \<not> BN_isNeg a \<and> (\<forall>n. a = BN n \<longrightarrow> 0 \<le> n)))
   \<and> (findMint (poolInfo snap) inMint = Some inInfo
        \<and> findMint (poolInfo snap) outMint = Some outInfo
        \<and> uiAmountToBN amount (mint_decimals inInfo) = Inr a
        \<and> (BN_isZero a \<or> BN_isNeg a)
       \<longrightarrow> validateSwap snap inMint outMint amount = Inl NonPositiveAmount)
   \<and> (publicKey wl \<noteq> None \<and> sendTransaction wl \<noteq> None
        \<and> validPublicKey e (p_tokenInMint p) \<and> validPublicKey e (p_tokenOutMint p)
        \<and> resolveAndProvision e conn wl (p_poolId p) (p_tokenInMint p) (p_tokenOutMint p) w
             = (Inr (ownerKey, pool, fetched), w1)
        \<and> findMint (poolInfo fetched) (p_tokenInMint p) = Some pin
        \<and> findMint (poolInfo fetched) (p_tokenOutMint p) = Some pout
        \<and> ((\<exists>b. uiAmountToBN (p_amount p) (mint_decimals pin) = Inr b \<and> (BN_isZero b \<or> BN_isNeg b))
             \<or> list_all isWhiteSpace (p_amount p)
             \<or> (\<exists>blank rest. list_all isWhiteSpace blank \<and> p_amount p = blank @ ''-'' @ rest))
       \<longrightarrow> performClmmSwap e conn wl p w = (Inl NonPositiveAmount, w1))"
proof -
  have 1: "list_all isWhiteSpace s \<longrightarrow> uiAmountToBN s d = Inr (BN 0)"
    by (simp add: uiAmountToBN_blank)
  have 2: "list_all isWhiteSpace ws \<longrightarrow> uiAmountToBN (ws @ ''-'' @ r) d = Inr (BN 0)"
    by (simp add: uiAmountToBN_negative)
  have 3: "CHR ''-'' \<notin> set s \<longrightarrow>
        (\<forall>a. uiAmountToBN s d = Inr a \<longrightarrow> \<not> BN_isNeg a \<and> (\<forall>n. a = BN n \<longrightarrow> 0 \<le> n))"
    using uiAmountToBN_no_minus by blast
  have 4: "findMint (poolInfo snap) inMint = Some inInfo
        \<and> findMint (poolInfo snap) outMint = Some outInfo
        \<and> uiAmountToBN amount (mint_decimals inInfo) = Inr a
        \<and> (BN_isZero a \<or> BN_isNeg a)
       \<longrightarrow> validateSwap snap inMint outMint amount = Inl NonPositiveAmount"
    using validateSwap_rejects by blast
  have 5: "publicKey wl \<noteq> None \<and> sendTransaction wl \<noteq> None
        \<and> validPublicKey e (p_tokenInMint p) \<and> validPublicKey e (p_tokenOutMint p)
        \<and> resolveAndProvision e conn wl (p_poolId p) (p_tokenInMint p) (p_tokenOutMint p) w
             = (Inr (ownerKey, pool, fetched), w1)
        \<and> findMint (poolInfo fetched) (p_tokenInMint p) = Some pin
        \<and> findMint (poolInfo fetched) (p_tokenOutMint p) = Some pout
        \<and> ((\<exists>b. uiAmountToBN (p_amount p) (mint_decimals pin) = Inr b \<and> (BN_isZero b \<or> BN_isNeg b))
             \<or> list_all isWhiteSpace (p_amount p)
             \<or> (\<exists>blank rest. list_all isWhiteSpace blank \<and> p_amount p = blank @ ''-'' @ rest))
       \<longrightarrow> performClmmSwap e conn wl p w = (Inl NonPositiveAmount, w1)"
  proof
    assume h: "publicKey wl \<noteq> None \<and> sendTransaction wl \<noteq> None
        \<and> validPublicKey e (p_tokenInMint p) \<and> validPublicKey e (p_tokenOutMint p)
        \<and> resolveAndProvision e conn wl (p_poolId p) (p_tokenInMint p) (p_tokenOutMint p) w
             = (Inr (ownerKey, pool, fetched), w1)
        \<and> findMint (poolInfo fetched) (p_tokenInMint p) = Some pin
        \<and> findMint (poolInfo fetched) (p_tokenOutMint p) = Some pout
        \<and> ((\<exists>b. uiAmountToBN (p_amount p) (mint_decimals pin) = Inr b \<and> (BN_isZero b \<or> BN_isNeg b))
             \<or> list_all isWhiteSpace (p_amount p)
             \<or> (\<exists>blank rest. list_all isWhiteSpace blank \<and> p_amount p = blank @ ''-'' @ rest))"
    then have "\<exists>b. uiAmountToBN (p_amount p) (mint_decimals pin) = Inr b \<and> (BN_isZero b \<or> BN_isNeg b)"
      using uiAmountToBN_blank [of "p_amount p" "mint_decimals pin"]
        uiAmountToBN_negative [of _ _ "mint_decimals pin"]
      by (metis BN_isZero.simps(1) append_Cons append_Nil)
    then obtain b where b: "uiAmountToBN (p_amount p) (mint_decimals pin) = Inr b"
        "BN_isZero b \<or> BN_isNeg b"
      by blast
    have v: "validateSwap fetched (p_tokenInMint p) (p_tokenOutMint p) (p_amount p) = Inl NonPositiveAmount"
      using h b by (intro validateSwap_rejects [of fetched _ pin _ pout _ b]) simp_all
    show "performClmmSwap e conn wl p w = (Inl NonPositiveAmount, w1)"
      using h performClmmSwap_after_fetch [of wl e p conn w ownerKey pool fetched w1]
      by (simp add: v)
  qed
  show ?thesis using 1 2 3 4 5 by blast
qed

lemma example_fetch:
  "resolveAndProvision exampleEnv devnetConnection exampleWallet ''Pool'' ''SOL1'' ''USDC'' exampleWorld =
     (Inr (''Ownr'', ''Pool'',
           \<lparr>poolInfo = \<lparr>mintA = \<lparr>mint_address = ''SOL1'', mint_symbol = Some ''SOL'', mint_decimals = 9\<rparr>,
                        mintB = \<lparr>mint_address = ''USDC'', mint_symbol = Some ''USDC'', mint_decimals = 6\<rparr>\<rparr>,
            computePoolInfo = Some 0, tickCache = Some 0, observationId = ''obsv''\<rparr>),
      \<lparr>accounts = [''Pool'' \<mapsto> \<lparr>info_owner = ''CAMM'', info_dataLength = 1544\<rparr>,
                   ''ASOw'' \<mapsto> newTokenAccount, ''AUOw'' \<mapsto> newTokenAccount],
       events =
         [GetAccountInfo ''Pool'', RaydiumLoad Devnet,
          GetAccountInfo ''ASOw'', SendTransaction (createAtaTx ''Ownr'' ''ASOw'' ''SOL1''),
          GetLatestBlockhash, ConfirmTransaction ''sig1'',
          GetAccountInfo ''AUOw'', SendTransaction (createAtaTx ''Ownr'' ''AUOw'' ''USDC''),
          GetLatestBlockhash, ConfirmTransaction ''sig1'',
          FetchWalletTokenAccounts, GetPoolInfoFromRpc ''Pool'']\<rparr>)"
  by (simp add: swap_eval createAtaTx_def)

theorem uiAmountToBN_rejects_blank_and_negative_witness:
  "list_all isWhiteSpace ''  '' \<and> uiAmountToBN ''  '' 6 = Inr (BN 0)
   \<and> list_all isWhiteSpace [] \<and> uiAmountToBN ''-1'' 6 = Inr (BN 0)
   \<and> uiAmountToBN [] 6 = Inr (BN 0)
   \<and> CHR ''-'' \<notin> set ''0.1'' \<and> uiAmountToBN ''0.1'' 9 = Inr (BN 100000000)
   \<and> \<not> BN_isNeg (BN 100000000)
   \<and> fst (performClmmSwap exampleEnv devnetConnection exampleWallet zeroAmountParams exampleWorld)
        = Inl NonPositiveAmount
   \<and> fst (performClmmSwap exampleEnv devnetConnection exampleWallet
            (zeroAmountParams\<lparr>p_amount := '' -1''\<rparr>) exampleWorld)
        = Inl NonPositiveAmount"
proof -
  have b: "list_all isWhiteSpace ''  ''" by (simp add: isWhiteSpace_def)
  have e: "list_all isWhiteSpace ([]::string)" by simp
  have sp: "list_all isWhiteSpace '' ''" by (simp add: isWhiteSpace_def)
  have m: "CHR ''-'' \<notin> set ''0.1''" by simp
  have "allDigits ''0''" "allDigits ''1''"
    by (simp_all add: allDigits_def isDigit_def)
  then have "uiAmountToBN (''0'' @ CHR ''.'' # ''1'') 9
          = Inr (BN (int (digitsVal ''0'' * 10 ^ 9 + digitsVal (padEnd (take 9 ''1'') 9))))"
    by (rule uiAmountToBN_decimal)
  moreover have dv: "digitsVal ''0'' = 0" "digitsVal ''1'' = 1"
    by (simp_all add: digitsVal_def digitValue_def)
  ultimately have v: "uiAmountToBN ''0.1'' 9 = Inr (BN 100000000)"
    by (simp add: digitsVal_padEnd)
  note blank = uiAmountToBN_rejects_blank_and_negative [THEN conjunct1]
  note minus = uiAmountToBN_rejects_blank_and_negative [THEN conjunct2, THEN conjunct1]
  note nonneg = uiAmountToBN_rejects_blank_and_negative
                  [THEN conjunct2, THEN conjunct2, THEN conjunct1]
  have t1: "uiAmountToBN ''  '' 6 = Inr (BN 0)"
    using blank [of "''  ''" 6] b by blast
  have t2: "uiAmountToBN ([] @ ''-'' @ ''1'') 6 = Inr (BN 0)"
    using minus [of "[]" "''1''" 6] e by blast
  have t3: "uiAmountToBN [] 6 = Inr (BN 0)"
    using blank [of "[]" 6] e by blast
  have t4: "\<not> BN_isNeg (BN 100000000)"
    using nonneg [of "''0.1''" 9] m v by blast
  define sol where "sol = \<lparr>mint_address = ''SOL1'', mint_symbol = Some ''SOL'', mint_decimals = 9\<rparr>"
  define usdc where "usdc = \<lparr>mint_address = ''USDC'', mint_symbol = Some ''USDC'', mint_decimals = 6\<rparr>"
  define fetched where
    "fetched = \<lparr>poolInfo = \<lparr>mintA = sol, mintB = usdc\<rparr>,
                 computePoolInfo = Some 0, tickCache = Some 0, observationId = ''obsv''\<rparr>"
  define w1 where
    "w1 = \<lparr>accounts = [''Pool'' \<mapsto> \<lparr>info_owner = ''CAMM'', info_dataLength = 1544\<rparr>,
                   ''ASOw'' \<mapsto> newTokenAccount, ''AUOw'' \<mapsto> newTokenAccount],
       events =
         [GetAccountInfo ''Pool'', RaydiumLoad Devnet,
          GetAccountInfo ''ASOw'', SendTransaction (createAtaTx ''Ownr'' ''ASOw'' ''SOL1''),
          GetLatestBlockhash, ConfirmTransaction ''sig1'',
          GetAccountInfo ''AUOw'', SendTransaction (createAtaTx ''Ownr'' ''AUOw'' ''USDC''),
          GetLatestBlockhash, ConfirmTransaction ''sig1'',
          FetchWalletTokenAccounts, GetPoolInfoFromRpc ''Pool'']\<rparr>"
  let ?p = "zeroAmountParams"
  let ?q = "zeroAmountParams\<lparr>p_amount := '' -1''\<rparr>"
  have w0: "publicKey exampleWallet \<noteq> None" "sendTransaction exampleWallet \<noteq> None"
    by (simp_all add: exampleWallet_def)
  have vk: "validPublicKey exampleEnv (p_tokenInMint ?p)" "validPublicKey exampleEnv (p_tokenOutMint ?p)"
      "validPublicKey exampleEnv (p_tokenInMint ?q)" "validPublicKey exampleEnv (p_tokenOutMint ?q)"
    by (simp_all add: exampleEnv_def zeroAmountParams_def)
  have rp: "resolveAndProvision exampleEnv devnetConnection exampleWallet
              (p_poolId ?p) (p_tokenInMint ?p) (p_tokenOutMint ?p) exampleWorld
              = (Inr (''Ownr'', ''Pool'', fetched), w1)"
      "resolveAndProvision exampleEnv devnetConnection exampleWallet
              (p_poolId ?q) (p_tokenInMint ?q) (p_tokenOutMint ?q) exampleWorld
              = (Inr (''Ownr'', ''Pool'', fetched), w1)"
    using example_fetch by (simp_all add: zeroAmountParams_def fetched_def sol_def usdc_def w1_def)
  have fm: "findMint (poolInfo fetched) (p_tokenInMint ?p) = Some sol"
      "findMint (poolInfo fetched) (p_tokenOutMint ?p) = Some usdc"
      "findMint (poolInfo fetched) (p_tokenInMint ?q) = Some sol"
      "findMint (poolInfo fetched) (p_tokenOutMint ?q) = Some usdc"
    by (simp_all add: findMint_def fetched_def sol_def usdc_def zeroAmountParams_def)
  have "uiAmountToBN ''0'' 9 = Inr (BN (int (digitsVal ''0'' * 10 ^ 9)))"
    using \<open>allDigits ''0''\<close> by (rule uiAmountToBN_integer) simp
  then have za: "\<exists>b. uiAmountToBN (p_amount ?p) (mint_decimals sol) = Inr b \<and> (BN_isZero b \<or> BN_isNeg b)"
    by (simp add: dv zeroAmountParams_def sol_def)
  have "list_all isWhiteSpace '' '' \<and> p_amount ?q = '' '' @ ''-'' @ ''1''"
    by (simp add: isWhiteSpace_def)
  then have ng: "\<exists>blank rest. list_all isWhiteSpace blank \<and> p_amount ?q = blank @ ''-'' @ rest"
    by blast
  have "performClmmSwap exampleEnv devnetConnection exampleWallet ?p exampleWorld
          = (Inl NonPositiveAmount, w1)"
    using uiAmountToBN_rejects_blank_and_negative
      [where wl = exampleWallet and e = exampleEnv and p = ?p and conn = devnetConnection
         and w = exampleWorld and ownerKey = "''Ownr''" and pool = "''Pool''"
         and fetched = fetched and ?w1.0 = w1 and pin = sol and pout = usdc,
       THEN conjunct2, THEN conjunct2, THEN conjunct2, THEN conjunct2]
      w0 vk(1,2) rp(1) fm(1,2) za
    by blast
  then have t5: "fst (performClmmSwap exampleEnv devnetConnection exampleWallet ?p exampleWorld)
                   = Inl NonPositiveAmount"
    by simp
  have "performClmmSwap exampleEnv devnetConnection exampleWallet ?q exampleWorld
          = (Inl NonPositiveAmount, w1)"
    using uiAmountToBN_rejects_blank_and_negative
      [where wl = exampleWallet and e = exampleEnv and p = ?q and conn = devnetConnection
         and w = exampleWorld and ownerKey = "''Ownr''" and pool = "''Pool''"
         and fetched = fetched and ?w1.0 = w1 and pin = sol and pout = usdc,
       THEN conjunct2, THEN conjunct2, THEN conjunct2, THEN conjunct2]
      w0 vk(3,4) rp(2) fm(3,4) ng
    by blast
  then have t6: "fst (performClmmSwap exampleEnv devnetConnection exampleWallet ?q exampleWorld)
                   = Inl NonPositiveAmount"
    by simp
  show ?thesis
    using b e m v t1 t2 t3 t4 t5 t6 by simp
qed

section \<open>Superseded fetches of the snapshot watch\<close>

lemma hookRun_append: "hookRun v (xs @ ys) s = hookRun v ys (hookRun v xs s)"
  by (simp add: hookRun_def)

lemma hookRun_Cons: "hookRun v (x # xs) s = hookRun v xs (hookStep v s x)"
  by (simp add: hookRun_def)

lemma hookRun_Nil: "hookRun v [] s = s"
  by (simp add: hookRun_def)

lemma length_fetches_runCleanup: "length (fetches (runCleanup s)) = length (fetches s)"
  by (simp add: runCleanup_def split: option.splits)

lemma length_fetches_step: "length (fetches s) \<le> length (fetches (hookStep v s ev))"
  by (cases ev)
     (simp_all add: runEffect_def onResolved_def onRejected_def length_fetches_runCleanup)

lemma length_fetches_run: "length (fetches s) \<le> length (fetches (hookRun v evs s))"
proof (induction evs arbitrary: s)
  case Nil
  show ?case by (simp add: hookRun_Nil)
next
  case (Cons ev evs)
  have "length (fetches s) \<le> length (fetches (hookStep v s ev))"
    by (rule length_fetches_step)
  also have "\<dots> \<le> length (fetches (hookRun v evs (hookStep v s ev)))"
    by (rule Cons.IH)
  finally show ?case by (simp add: hookRun_Cons)
qed

lemma cancelled_runCleanup:
  "i < length (fetches s) \<Longrightarrow> cancelled (fetches s ! i) \<Longrightarrow> cancelled (fetches (runCleanup s) ! i)"
  by (auto simp: runCleanup_def nth_list_update split: option.splits)

lemma cancelled_step:
  assumes "i < length (fetches s)" "cancelled (fetches s ! i)"
  shows "cancelled (fetches (hookStep v s ev) ! i)"
proof (cases ev)
  case (DepsChanged a)
  have "cancelled (fetches (runCleanup s) ! i)"
    using assms by (rule cancelled_runCleanup)
  then show ?thesis
    using assms(1) DepsChanged
    by (simp add: runEffect_def nth_append length_fetches_runCleanup)
next
  case (Resolved j snap)
  then show ?thesis using assms by (simp add: onResolved_def)
next
  case (Rejected j err)
  then show ?thesis using assms by (simp add: onRejected_def)
next
  case Unmount
  then show ?thesis using assms by (simp add: cancelled_runCleanup)
qed

lemma cancelled_run:
  "i < length (fetches s) \<Longrightarrow> cancelled (fetches s ! i) \<Longrightarrow>
     cancelled (fetches (hookRun v evs s) ! i)"
proof (induction evs arbitrary: s)
  case Nil
  then show ?case by (simp add: hookRun_Nil)
next
  case (Cons ev evs)
  have "i < length (fetches (hookStep v s ev))"
    using Cons.prems(1) length_fetches_step [of s v ev] by simp
  moreover have "cancelled (fetches (hookStep v s ev) ! i)"
    using Cons.prems by (rule cancelled_step)
  ultimately show ?case
    by (simp add: hookRun_Cons Cons.IH)
qed

lemma all_cancelled_after_cleanup:
  assumes "othersCancelled s" "i < length (fetches s)"
  shows "cancelled (fetches (runCleanup s) ! i)"
  using assms
  by (auto simp: othersCancelled_def runCleanup_def nth_list_update split: option.splits)

lemma othersCancelled_step:
  assumes "othersCancelled s"
  shows "othersCancelled (hookStep v s ev)"
proof (cases ev)
  case (DepsChanged a)
  have all: "\<forall>i < length (fetches s). cancelled (fetches (runCleanup s) ! i)"
    using assms all_cancelled_after_cleanup by blast
  have "cleanup (runCleanup s) = None"
    by (simp add: runCleanup_def split: option.splits)
  then show ?thesis
    using all DepsChanged
    by (auto simp: othersCancelled_def runEffect_def nth_append length_fetches_runCleanup)
next
  case (Resolved j snap)
  then show ?thesis using assms by (auto simp: othersCancelled_def onResolved_def)
next
  case (Rejected j err)
  then show ?thesis using assms by (auto simp: othersCancelled_def onRejected_def)
next
  case Unmount
  have "\<forall>i < length (fetches s). cancelled (fetches (runCleanup s) ! i)"
    using assms all_cancelled_after_cleanup by blast
  then show ?thesis
    using Unmount by (simp add: othersCancelled_def length_fetches_runCleanup)
qed

lemma othersCancelled_run: "othersCancelled s \<Longrightarrow> othersCancelled (hookRun v evs s)"
  by (induction evs arbitrary: s) (simp_all add: hookRun_Nil hookRun_Cons othersCancelled_step)

lemma othersCancelled_initial: "othersCancelled initialHook"
  by (simp add: othersCancelled_def initialHook_def)

lemma completion_of_cancelled_ignored:
  assumes "i < length (fetches s)" "cancelled (fetches s ! i)"
  shows "hookStep v s (Resolved i snap) = s" "hookStep v s (Rejected i err) = s"
  using assms by (simp_all add: onResolved_def onRejected_def)

lemma superseded_is_cancelled:
  assumes "othersCancelled s" "i < length (fetches s)"
  shows "cancelled (fetches (hookRun v mid (hookStep v s (DepsChanged b))) ! i)"
    and "i < length (fetches (hookRun v mid (hookStep v s (DepsChanged b))))"
proof -
  have c: "cancelled (fetches (runCleanup s) ! i)"
    using assms by (rule all_cancelled_after_cleanup)
  have l: "i < length (fetches (hookStep v s (DepsChanged b)))"
    using assms(2) length_fetches_step [of s v "DepsChanged b"] by simp
  have "cancelled (fetches (hookStep v s (DepsChanged b)) ! i)"
    using c assms(2) by (simp add: runEffect_def nth_append length_fetches_runCleanup)
  then show "cancelled (fetches (hookRun v mid (hookStep v s (DepsChanged b))) ! i)"
    using l by (intro cancelled_run)
  show "i < length (fetches (hookRun v mid (hookStep v s (DepsChanged b))))"
    using l length_fetches_run [of "hookStep v s (DepsChanged b)" v mid] by simp
qed

text \<open>
  Claim C5.  Let a fetch be started, and let the watched address change afterwards
  (to a valid or an invalid address) before that fetch settles.  Then, for any
  interleaving of later events, the late result of the superseded fetch, fulfilled or
  rejected, is discarded: the run with the late completion and the run without it end
  in the same state, so the result is never applied to the snapshot, the error or the
  loading flag, also when it arrives after the result of the newer fetch.
\<close>

theorem superseded_fetch_discarded:
  assumes "i < length (fetches (hookRun v pre initialHook))"
  shows "hookRun v (pre @ DepsChanged b # mid @ Resolved i snap # post) initialHook
           = hookRun v (pre @ DepsChanged b # mid @ post) initialHook
       \<and> hookRun v (pre @ DepsChanged b # mid @ Rejected i err # post) initialHook
           = hookRun v (pre @ DepsChanged b # mid @ post) initialHook"
proof -
  define s where "s = hookRun v pre initialHook"
  define t where "t = hookRun v mid (hookStep v s (DepsChanged b))"
  have inv: "othersCancelled s"
    unfolding s_def by (rule othersCancelled_run [OF othersCancelled_initial])
  have i: "i < length (fetches s)" using assms by (simp add: s_def)
  have c: "cancelled (fetches t ! i)" and l: "i < length (fetches t)"
    unfolding t_def by (rule superseded_is_cancelled [OF inv i])+
  have r: "hookStep v t (Resolved i snap) = t" and j: "hookStep v t (Rejected i err) = t"
    using completion_of_cancelled_ignored [OF l c] by simp_all
  have "hookRun v (pre @ DepsChanged b # mid @ Resolved i snap # post) initialHook
          = hookRun v post (hookStep v t (Resolved i snap))"
    by (simp add: hookRun_append hookRun_Cons s_def t_def)
  moreover have "hookRun v (pre @ DepsChanged b # mid @ Rejected i err # post) initialHook
          = hookRun v post (hookStep v t (Rejected i err))"
    by (simp add: hookRun_append hookRun_Cons s_def t_def)
  moreover have "hookRun v (pre @ DepsChanged b # mid @ post) initialHook = hookRun v post t"
    by (simp add: hookRun_append hookRun_Cons s_def t_def)
  ultimately show ?thesis
    using r j by simp
qed

lemmas hook_eval =
  hookRun_def runEffect_def runCleanup_def onResolved_def onRejected_def initialHook_def

theorem superseded_fetch_discarded_witness:
  "(0::nat) < length (fetches (hookRun (\<lambda>a. length a = 5) [DepsChanged ''PoolA''] initialHook))
   \<and> hookRun (\<lambda>a. length a = 5)
        ([DepsChanged ''PoolA''] @ DepsChanged ''PoolB'' # [Resolved 1 snapshotB] @ Resolved 0 snapshotA # [])
        initialHook
      = hookRun (\<lambda>a. length a = 5)
        ([DepsChanged ''PoolA''] @ DepsChanged ''PoolB'' # [Resolved 1 snapshotB] @ [])
        initialHook
   \<and> poolSnapshot (hookRun (\<lambda>a. length a = 5)
        [DepsChanged ''PoolA'', DepsChanged ''PoolB'', Resolved 1 snapshotB, Resolved 0 snapshotA]
        initialHook) = Some snapshotB"
proof -
  have h: "(0::nat) < length (fetches (hookRun (\<lambda>a. length a = 5) [DepsChanged ''PoolA''] initialHook))"
    by (simp add: hook_eval)
  have e: "poolSnapshot (hookRun (\<lambda>a. length a = 5)
        ([DepsChanged ''PoolA''] @ DepsChanged ''PoolB'' # [Resolved 1 snapshotB] @ [])
        initialHook) = Some snapshotB"
    by (simp add: hook_eval)
  show ?thesis
    using superseded_fetch_discarded [OF h, of "''PoolB''" "[Resolved 1 snapshotB]" snapshotA "[]" None]
      h e by simp
qed

end
